theory Spec2Isabelle
  imports Main "HOL-Library.AList"
begin

section \<open>Strings and numbers of the JavaScript runtime\<close>

text \<open>
  A JavaScript string is modelled as a \<^typ>\<open>string\<close>: a list of code units, here the
  code units below 256. Numbers are modelled by their exact mathematical value: an integer
  result is an \<^typ>\<open>int\<close> (or \<^typ>\<open>nat\<close>), \<open>NaN\<close> is \<open>None\<close>. The doubles of
  the runtime agree with the exact values below \<open>2^53\<close>, which covers every index and every
  port the script works with.
\<close>

text \<open>The white space of \<open>String.prototype.trim\<close> and of the regular expression \<open>\s\<close>
  (tab, line feed, vertical tab, form feed, carriage return, space, no-break space).\<close>

definition isSpace :: "char \<Rightarrow> bool" where
  "isSpace c = (c \<in> {CHR 0x09, CHR 0x0A, CHR 0x0B, CHR 0x0C, CHR 0x0D, CHR 0x20, CHR 0xA0})"

definition trimStart :: "string \<Rightarrow> string" where
  "trimStart s = dropWhile isSpace s"

definition trimEnd :: "string \<Rightarrow> string" where
  "trimEnd s = rev (dropWhile isSpace (rev s))"

definition trim :: "string \<Rightarrow> string" where
  "trim s = trimEnd (trimStart s)"

text \<open>\<open>s.split(c)\<close> for a separator of one character: always at least one piece.\<close>

fun split_on :: "char \<Rightarrow> string \<Rightarrow> string list" where
  "split_on c [] = [[]]"
| "split_on c (x # xs) =
     (if x = c then [] # split_on c xs
      else (case split_on c xs of
              [] \<Rightarrow> [[x]]
            | t # ts \<Rightarrow> (x # t) # ts))"

text \<open>\<open>xs.join(sep)\<close>.\<close>

fun join :: "string \<Rightarrow> string list \<Rightarrow> string" where
  "join sep [] = []"
| "join sep [x] = x"
| "join sep (x # y # ys) = x @ sep @ join sep (y # ys)"

definition startsWith :: "string \<Rightarrow> string \<Rightarrow> bool" where
  "startsWith s p = (take (length p) s = p)"

text \<open>The value of a character as a digit (\<open>0-9\<close>, \<open>a-z\<close>, \<open>A-Z\<close>), for radices up to 36.\<close>

definition digitValue :: "char \<Rightarrow> nat option" where
  "digitValue c =
     (let n = (of_char c :: nat) in
      if 48 \<le> n \<and> n \<le> 57 then Some (n - 48)
      else if 97 \<le> n \<and> n \<le> 122 then Some (n - 87)
      else if 65 \<le> n \<and> n \<le> 90 then Some (n - 55)
      else None)"

definition isRadixDigit :: "nat \<Rightarrow> char \<Rightarrow> bool" where
  "isRadixDigit R c = (case digitValue c of Some d \<Rightarrow> d < R | None \<Rightarrow> False)"

definition radixValue :: "nat \<Rightarrow> string \<Rightarrow> nat" where
  "radixValue R z =
     foldl (\<lambda>acc c. case digitValue c of Some d \<Rightarrow> acc * R + d | None \<Rightarrow> acc) 0 z"

text \<open>
  \<open>parseInt(input, radix)\<close>, following the steps of the language standard: leading white
  space is skipped, one sign is read, a \<open>0x\<close> prefix is honoured when the radix is absent
  or 16, and the longest run of digits of the radix is the value; whatever follows that run
  is ignored. No digit at all gives \<open>NaN\<close> (\<open>None\<close>). The radix \<open>0\<close> stands
  for an absent radix, as in the standard.
\<close>

definition parseInt :: "string \<Rightarrow> nat \<Rightarrow> int option" where
  "parseInt input radix =
     (let s = trimStart input;
          neg = (s \<noteq> [] \<and> hd s = CHR ''-'');
          s1 = (if s \<noteq> [] \<and> (hd s = CHR ''+'' \<or> hd s = CHR ''-'') then tl s else s)
      in if radix \<noteq> 0 \<and> (radix < 2 \<or> 36 < radix) then None
         else
           let hex = ((radix = 0 \<or> radix = 16) \<and> (take 2 s1 = ''0x'' \<or> take 2 s1 = ''0X''));
               s2 = (if hex then drop 2 s1 else s1);
               R = (if hex then 16 else if radix = 0 then 10 else radix);
               z = takeWhile (isRadixDigit R) s2
           in if z = [] then None
              else Some ((if neg then - 1 else 1) * int (radixValue R z)))"

section \<open>Selection resolver: \<open>parseMultiSelect\<close>\<close>

text \<open>A \<open>Set\<close> keeps its elements in insertion order; \<open>add\<close> of a member changes nothing.\<close>

definition set_add :: "'a \<Rightarrow> 'a list \<Rightarrow> 'a list" where
  "set_add x xs = (if x \<in> set xs then xs else xs @ [x])"

text \<open>The pieces of the typed line: split on commas, trimmed, empty pieces dropped.\<close>

definition selectionParts :: "string \<Rightarrow> string list" where
  "selectionParts raw = filter (\<lambda>p. p \<noteq> []) (map trim (split_on CHR '','' raw))"

text \<open>The \<open>for\<close> loop over the pieces; \<open>None\<close> is the early \<open>return null\<close>.\<close>

fun selectLoop :: "int \<Rightarrow> string list \<Rightarrow> int list \<Rightarrow> int list option" where
  "selectLoop mx [] result = Some result"
| "selectLoop mx (part # parts) result =
     (case parseInt part 10 of
        None \<Rightarrow> None
      | Some n \<Rightarrow>
          if n < 1 \<or> mx < n then None
          else selectLoop mx parts (set_add n result))"

definition parseMultiSelect :: "string \<Rightarrow> int \<Rightarrow> int list option" where
  "parseMultiSelect input mx =
     (let raw = trim input in
      if raw = [] then Some []
      else map_option sort (selectLoop mx (selectionParts raw) []))"

text \<open>
  The wording of the specification, for comparison: a token is acceptable when the whole
  of it is a decimal integer (an optional sign, then digits only) that lies in \<open>[1, mx]\<close>.
\<close>

definition spec_isIntegerToken :: "string \<Rightarrow> bool" where
  "spec_isIntegerToken t =
     (let u = (if t \<noteq> [] \<and> (hd t = CHR ''+'' \<or> hd t = CHR ''-'') then tl t else t)
      in u \<noteq> [] \<and> list_all (isRadixDigit 10) u)"

definition spec_tokenInRange :: "string \<Rightarrow> int \<Rightarrow> bool" where
  "spec_tokenInRange t mx =
     (spec_isIntegerToken t \<and>
      (case parseInt t 10 of None \<Rightarrow> False | Some n \<Rightarrow> 1 \<le> n \<and> n \<le> mx))"

subsection \<open>Properties of the selection resolver\<close>

lemma trim_Nil: "trim [] = []"
  by (simp add: trim_def trimEnd_def trimStart_def)

lemma selectionParts_Nil: "selectionParts [] = []"
  by (simp add: selectionParts_def trim_Nil)

lemma set_add_set: "set (set_add x xs) = insert x (set xs)"
  by (auto simp: set_add_def)

lemma set_add_distinct: "distinct xs \<Longrightarrow> distinct (set_add x xs)"
  by (simp add: set_add_def)

lemma selectLoop_Some:
  "selectLoop mx parts acc = Some r \<Longrightarrow>
     set r = set acc \<union> {n. \<exists>p\<in>set parts. parseInt p 10 = Some n} \<and>
     (distinct acc \<longrightarrow> distinct r) \<and>
     (\<forall>p\<in>set parts. \<exists>n. parseInt p 10 = Some n \<and> 1 \<le> n \<and> n \<le> mx)"
proof (induction parts arbitrary: acc)
  case Nil
  then show ?case by simp
next
  case (Cons p ps)
  from Cons.prems obtain n where n: "parseInt p 10 = Some n" "1 \<le> n" "n \<le> mx"
    and rest: "selectLoop mx ps (set_add n acc) = Some r"
    by (auto split: option.splits if_splits)
  from Cons.IH [OF rest] n show ?case
    by (auto simp: set_add_set set_add_distinct)
qed

lemma selectLoop_None:
  "selectLoop mx parts acc = None \<longleftrightarrow>
     (\<exists>p\<in>set parts. case parseInt p 10 of None \<Rightarrow> True | Some n \<Rightarrow> n < 1 \<or> mx < n)"
  by (induction parts arbitrary: acc) (auto split: option.splits)

text \<open>
  Claim C1, as the code has it. \<open>parseMultiSelect\<close> returns either the invalid marker or
  a duplicate-free ascending list of integers in \<open>[1, mx]\<close>; input that is empty after
  trimming gives the empty list; the result is invalid exactly when some non-empty trimmed
  piece has no leading integer for \<open>parseInt\<close> or has one outside \<open>[1, mx]\<close>, and a valid
  result holds exactly the leading integers of the pieces. Characters after the leading
  integer of a piece are ignored.
\<close>

theorem parseMultiSelect_result:
  "(trim input = [] \<longrightarrow> parseMultiSelect input mx = Some []) \<and>
   (\<forall>xs. parseMultiSelect input mx = Some xs \<longrightarrow>
      sorted xs \<and> distinct xs \<and> (\<forall>n\<in>set xs. 1 \<le> n \<and> n \<le> mx) \<and>
      set xs = {n. \<exists>p\<in>set (selectionParts (trim input)). parseInt p 10 = Some n}) \<and>
   (parseMultiSelect input mx = None \<longleftrightarrow>
      trim input \<noteq> [] \<and>
      (\<exists>p\<in>set (selectionParts (trim input)).
         case parseInt p 10 of None \<Rightarrow> True | Some n \<Rightarrow> n < 1 \<or> mx < n))"
proof -
  have empty: "trim input = [] \<longrightarrow> parseMultiSelect input mx = Some []"
    by (simp add: parseMultiSelect_def Let_def)
  have valid: "sorted xs \<and> distinct xs \<and> (\<forall>n\<in>set xs. 1 \<le> n \<and> n \<le> mx) \<and>
      set xs = {n. \<exists>p\<in>set (selectionParts (trim input)). parseInt p 10 = Some n}"
    if res: "parseMultiSelect input mx = Some xs" for xs
  proof (cases "trim input = []")
    case True
    with res show ?thesis
      by (simp add: parseMultiSelect_def Let_def selectionParts_Nil)
  next
    case False
    with res obtain r where r: "selectLoop mx (selectionParts (trim input)) [] = Some r"
      and xs: "xs = sort r"
      by (auto simp: parseMultiSelect_def Let_def)
    from selectLoop_Some [OF r] xs show ?thesis
      by auto
  qed
  have invalid: "parseMultiSelect input mx = None \<longleftrightarrow>
      trim input \<noteq> [] \<and>
      (\<exists>p\<in>set (selectionParts (trim input)).
         case parseInt p 10 of None \<Rightarrow> True | Some n \<Rightarrow> n < 1 \<or> mx < n)"
    by (simp add: parseMultiSelect_def Let_def selectLoop_None)
  from empty valid invalid show ?thesis
    by blast
qed

theorem parseMultiSelect_result_witness:
  "trim ''  '' = [] \<and> parseMultiSelect ''  '' 5 = Some [] \<and>
   parseMultiSelect ''3,1,1'' 5 = Some [1, 3] \<and>
   sorted [1, 3 :: int] \<and> distinct [1, 3 :: int] \<and>
   set [1, 3 :: int] = {n. \<exists>p\<in>set (selectionParts (trim ''3,1,1'')). parseInt p 10 = Some n} \<and>
   trim ''1,9'' \<noteq> [] \<and> parseMultiSelect ''1,9'' 5 = None"
proof -
  have a: "trim ''  '' = []" by code_simp
  have b: "parseMultiSelect ''3,1,1'' 5 = Some [1, 3]" by code_simp
  have c: "trim ''1,9'' \<noteq> []" by code_simp
  have d: "parseMultiSelect ''1,9'' 5 = None" by code_simp
  from a parseMultiSelect_result [of "''  ''" 5]
  have "parseMultiSelect ''  '' 5 = Some []" by blast
  moreover from b parseMultiSelect_result [of "''3,1,1''" 5]
  have "sorted [1, 3 :: int] \<and> distinct [1, 3 :: int] \<and>
    set [1, 3 :: int] = {n. \<exists>p\<in>set (selectionParts (trim ''3,1,1'')). parseInt p 10 = Some n}"
    by blast
  ultimately show ?thesis using a b c d by blast
qed

text \<open>
  Claim C1 as it is worded fails on the code: \<open>1abc\<close> is the only comma-separated token
  of the input, it is not an integer, and yet the selection \<open>[1]\<close> is returned.
\<close>

theorem parseMultiSelect_partial_counterexample:
  "split_on CHR '','' ''1abc'' = [''1abc''] \<and> \<not> spec_tokenInRange ''1abc'' 5 \<and>
   parseMultiSelect ''1abc'' 5 = Some [1]"
  by code_simp

section \<open>Port allocator: \<open>nextAvailablePort\<close>\<close>

text \<open>\<open>String(p)\<close> for a non-negative integer: its decimal digits, no leading zero.\<close>

definition digitChar :: "nat \<Rightarrow> char" where
  "digitChar d = ''0123456789'' ! d"

function String_of :: "nat \<Rightarrow> string" where
  "String_of n =
     (if n < 10 then [digitChar n]
      else String_of (n div 10) @ [digitChar (n mod 10)])"
  by pat_completeness auto
termination
  by (relation "measure id") auto

declare String_of.simps [simp del]

lemma digitValue_digitChar: "d < 10 \<Longrightarrow> digitValue (digitChar d) = Some d"
proof -
  assume "d < 10"
  then have "d = 0 \<or> d = 1 \<or> d = 2 \<or> d = 3 \<or> d = 4 \<or> d = 5 \<or> d = 6 \<or> d = 7 \<or>
      d = 8 \<or> d = 9"
    by arith
  then show ?thesis
    by (auto simp: digitValue_def digitChar_def)
qed

lemma radixValue_snoc:
  "radixValue R (z @ [c]) =
     (case digitValue c of Some d \<Rightarrow> radixValue R z * R + d | None \<Rightarrow> radixValue R z)"
  unfolding radixValue_def by simp

lemma radixValue_String_of: "radixValue 10 (String_of n) = n"
proof (induction n rule: String_of.induct)
  case (1 n)
  show ?case
  proof (cases "n < 10")
    case True
    then show ?thesis
      by (subst String_of.simps) (simp add: radixValue_def digitValue_digitChar)
  next
    case False
    with "1" have "radixValue 10 (String_of (n div 10)) = n div 10" by simp
    with False show ?thesis
      by (subst String_of.simps) (simp add: radixValue_snoc digitValue_digitChar)
  qed
qed

lemma String_of_inj: "inj String_of"
  by (rule inj_on_inverseI [where g = "radixValue 10"]) (rule radixValue_String_of)

lemma finite_reserved_from: "finite {q. p \<le> q \<and> String_of q \<in> set rs}"
proof -
  have "finite (String_of -` set rs)"
    by (rule finite_vimageI [OF _ String_of_inj]) simp
  moreover have "{q. p \<le> q \<and> String_of q \<in> set rs} \<subseteq> String_of -` set rs"
    by auto
  ultimately show ?thesis
    by (rule rev_finite_subset)
qed

text \<open>
  The \<open>while\<close> loop of \<open>nextAvailablePort\<close>, with \<open>p\<close> as its state; the reserved
  ports are a \<open>Set\<close> of strings, here the list of its elements. The loop ends because the
  set is finite and \<open>String\<close> is injective.
\<close>

function nextAvailablePort :: "nat \<Rightarrow> string list \<Rightarrow> string" where
  "nextAvailablePort p reservedPorts =
     (if String_of p \<in> set reservedPorts then nextAvailablePort (p + 1) reservedPorts
      else String_of p)"
  by pat_completeness auto
termination
proof (relation "measure (\<lambda>(p, rs). card {q. p \<le> q \<and> String_of q \<in> set rs})")
  show "wf (measure (\<lambda>(p, rs). card {q. p \<le> q \<and> String_of q \<in> set rs}))"
    by simp
next
  fix p :: nat and reservedPorts :: "string list"
  assume mem: "String_of p \<in> set reservedPorts"
  have "p \<in> {q. p \<le> q \<and> String_of q \<in> set reservedPorts}"
    using mem by simp
  moreover have "p \<notin> {q. p + 1 \<le> q \<and> String_of q \<in> set reservedPorts}"
    by simp
  moreover have "{q. p + 1 \<le> q \<and> String_of q \<in> set reservedPorts}
          \<subseteq> {q. p \<le> q \<and> String_of q \<in> set reservedPorts}"
    by auto
  ultimately have "{q. p + 1 \<le> q \<and> String_of q \<in> set reservedPorts}
          \<subset> {q. p \<le> q \<and> String_of q \<in> set reservedPorts}"
    by blast
  then have "card {q. p + 1 \<le> q \<and> String_of q \<in> set reservedPorts}
          < card {q. p \<le> q \<and> String_of q \<in> set reservedPorts}"
    by (rule psubset_card_mono [OF finite_reserved_from])
  then show "((p + 1, reservedPorts), (p, reservedPorts))
          \<in> measure (\<lambda>(p, rs). card {q. p \<le> q \<and> String_of q \<in> set rs})"
    by simp
qed

declare nextAvailablePort.simps [simp del]

subsection \<open>Properties of the port allocator\<close>

lemma String_of_3000: "String_of 3000 = ''3000''"
  by (simp add: String_of.simps digitChar_def)

lemma String_of_3001: "String_of 3001 = ''3001''"
  by (simp add: String_of.simps digitChar_def)

lemma String_of_3002: "String_of 3002 = ''3002''"
  by (simp add: String_of.simps digitChar_def)

lemma nextAvailablePort_3000_empty: "nextAvailablePort 3000 [] = ''3000''"
  by (simp add: nextAvailablePort.simps String_of_3000)

lemma nextAvailablePort_3000_two: "nextAvailablePort 3000 [''3000'', ''3001''] = ''3002''"
  by (simp add: nextAvailablePort.simps String_of_3000 String_of_3001 String_of_3002)

lemma nextAvailablePort_least:
  "\<exists>p. nextAvailablePort startPort reservedPorts = String_of p \<and> startPort \<le> p \<and>
       String_of p \<notin> set reservedPorts \<and>
       (\<forall>q. startPort \<le> q \<and> q < p \<longrightarrow> String_of q \<in> set reservedPorts)"
proof (induction startPort reservedPorts rule: nextAvailablePort.induct)
  case (1 p rs)
  show ?case
  proof (cases "String_of p \<in> set rs")
    case False
    then have "nextAvailablePort p rs = String_of p"
      by (subst nextAvailablePort.simps) simp
    with False show ?thesis
      by (intro exI [of _ p]) auto
  next
    case True
    from "1" [OF True] obtain r where r: "nextAvailablePort (p + 1) rs = String_of r"
      "p + 1 \<le> r" "String_of r \<notin> set rs"
      "\<forall>q. p + 1 \<le> q \<and> q < r \<longrightarrow> String_of q \<in> set rs"
      by blast
    from True have "nextAvailablePort p rs = nextAvailablePort (p + 1) rs"
      by (subst nextAvailablePort.simps) simp
    moreover have "\<forall>q. p \<le> q \<and> q < r \<longrightarrow> String_of q \<in> set rs"
    proof (intro allI impI)
      fix q assume q: "p \<le> q \<and> q < r"
      show "String_of q \<in> set rs"
      proof (cases "q = p")
        case True
        with \<open>String_of p \<in> set rs\<close> show ?thesis by simp
      next
        case False
        with q have "p + 1 \<le> q \<and> q < r" by simp
        with r(4) show ?thesis by blast
      qed
    qed
    ultimately show ?thesis
      using r by (intro exI [of _ r]) simp
  qed
qed

text \<open>
  Claim C7. For every start port and every set of reserved ports, \<open>nextAvailablePort\<close>
  returns (as a string) the smallest integer \<open>p\<close> at or above the start port whose string
  is not reserved; it returns 3000 from 3000 with nothing reserved, and 3002 from 3000
  with 3000 and 3001 reserved.
\<close>

theorem nextAvailablePort_smallest_free:
  "(\<exists>p. nextAvailablePort startPort reservedPorts = String_of p \<and> startPort \<le> p \<and>
       String_of p \<notin> set reservedPorts \<and>
       (\<forall>q. startPort \<le> q \<and> q < p \<longrightarrow> String_of q \<in> set reservedPorts)) \<and>
   nextAvailablePort 3000 [] = ''3000'' \<and>
   nextAvailablePort 3000 [''3000'', ''3001''] = ''3002''"
  using nextAvailablePort_least [of startPort reservedPorts]
    nextAvailablePort_3000_empty nextAvailablePort_3000_two
  by blast

theorem nextAvailablePort_smallest_free_witness:
  "nextAvailablePort 3000 [''3000'', ''3001''] = String_of 3002 \<and>
   String_of 3002 \<notin> set [''3000'', ''3001''] \<and>
   String_of 3000 \<in> set [''3000'', ''3001''] \<and>
   String_of 3001 \<in> set [''3000'', ''3001'']"
proof -
  from nextAvailablePort_smallest_free [of 3000 "[''3000'', ''3001'']"]
  obtain p where p: "nextAvailablePort 3000 [''3000'', ''3001''] = String_of p"
      "String_of p \<notin> set [''3000'', ''3001'']"
      "\<forall>q. 3000 \<le> q \<and> q < p \<longrightarrow> String_of q \<in> set [''3000'', ''3001'']"
    and e: "nextAvailablePort 3000 [''3000'', ''3001''] = ''3002''"
    by blast
  from p(1) e have "String_of p = String_of 3002"
    by (simp add: String_of_3002)
  then have p3002: "p = 3002"
    using String_of_inj by (simp add: inj_eq)
  from p(3) p3002 have "String_of 3000 \<in> set [''3000'', ''3001'']"
    and "String_of 3001 \<in> set [''3000'', ''3001'']"
    by simp_all
  with p(1,2) p3002 show ?thesis
    by simp
qed

section \<open>Session supervisor: labelled output of a tunnel process\<close>

text \<open>The colour codes of the table \<open>c\<close>.\<close>

definition c_reset :: string where "c_reset = CHR 0x1B # ''[0m''"
definition c_red :: string where "c_red = CHR 0x1B # ''[31m''"
definition c_green :: string where "c_green = CHR 0x1B # ''[32m''"
definition c_yellow :: string where "c_yellow = CHR 0x1B # ''[33m''"
definition c_magenta :: string where "c_magenta = CHR 0x1B # ''[35m''"
definition c_cyan :: string where "c_cyan = CHR 0x1B # ''[36m''"

definition colorText :: "string \<Rightarrow> string \<Rightarrow> string" where
  "colorText colorCode text = colorCode @ text @ CHR 0x1B # ''[0m''"

text \<open>\<open>text.replace(/\r\n/g, "\n")\<close> and \<open>text.replace(/\r/g, "\n")\<close>.\<close>

fun replace_crlf :: "string \<Rightarrow> string" where
  "replace_crlf (a # b # xs) =
     (if a = CHR 0x0D \<and> b = CHR 0x0A then CHR 0x0A # replace_crlf xs
      else a # replace_crlf (b # xs))"
| "replace_crlf xs = xs"

definition replace_cr :: "string \<Rightarrow> string" where
  "replace_cr s = map (\<lambda>c. if c = CHR 0x0D then CHR 0x0A else c) s"

text \<open>
  \<open>writePrefixedLines\<close>: the strings handed to \<open>process.stdout.write\<close>, in order. The
  last piece of the split is skipped when it is empty.
\<close>

definition writePrefixedLines :: "string \<Rightarrow> string \<Rightarrow> string \<Rightarrow> string list" where
  "writePrefixedLines colorCode pfx text =
     (let lines = split_on (CHR 0x0A) (replace_cr (replace_crlf text))
      in map (\<lambda>(i, line). colorText colorCode (pfx @ '' '' @ line) @ [CHR 0x0A])
           (filter (\<lambda>(i, line). \<not> (i = length lines - 1 \<and> line = []))
              (enumerate 0 lines)))"

text \<open>
  The events of one child process and the three handlers that \<open>main\<close> attaches to it.
  The state is the closure variable \<open>printedAvailable\<close> together with everything written
  so far. An exit code is a number or \<open>null\<close>.
\<close>

datatype child_event = StdoutData string | StderrData string | Close "nat option"

record child_state =
  printedAvailable :: bool
  written :: "string list"

definition availableText :: "string \<Rightarrow> string" where
  "availableText localPort = ''Service available at: http://localhost:'' @ localPort"

fun onChildEvent :: "string \<Rightarrow> string \<Rightarrow> child_state \<Rightarrow> child_event \<Rightarrow> child_state" where
  "onChildEvent pfx localPort st (StdoutData d) =
     (let st1 = (if \<not> printedAvailable st
                 then st\<lparr>printedAvailable := True,
                        written := written st @
                          writePrefixedLines c_magenta pfx (availableText localPort)\<rparr>
                 else st)
      in st1\<lparr>written := written st1 @ writePrefixedLines c_green pfx d\<rparr>)"
| "onChildEvent pfx localPort st (StderrData d) =
     st\<lparr>written := written st @ writePrefixedLines c_red pfx d\<rparr>"
| "onChildEvent pfx localPort st (Close code) =
     st\<lparr>written := written st @
        writePrefixedLines c_cyan pfx
          (''port-forward exited with code '' @
             (case code of None \<Rightarrow> ''null'' | Some n \<Rightarrow> String_of n))\<rparr>"

definition spawned :: child_state where
  "spawned = \<lparr>printedAvailable = False, written = []\<rparr>"

definition childOutput :: "string \<Rightarrow> string \<Rightarrow> child_event list \<Rightarrow> child_state" where
  "childOutput pfx localPort evs = foldl (onChildEvent pfx localPort) spawned evs"

text \<open>The announcement as one written line.\<close>

definition availableLine :: "string \<Rightarrow> string \<Rightarrow> string" where
  "availableLine pfx localPort =
     colorText c_magenta (pfx @ '' '' @ availableText localPort) @ [CHR 0x0A]"

definition isStdout :: "child_event \<Rightarrow> bool" where
  "isStdout e = (case e of StdoutData d \<Rightarrow> True | _ \<Rightarrow> False)"

subsection \<open>Properties of the labelled output\<close>

lemma split_on_single: "c \<notin> set s \<Longrightarrow> split_on c s = [s]"
  by (induction s) auto

lemma replace_crlf_id: "CHR 0x0D \<notin> set s \<Longrightarrow> replace_crlf s = s"
  by (induction s rule: replace_crlf.induct) auto

lemma replace_cr_id: "CHR 0x0D \<notin> set s \<Longrightarrow> replace_cr s = s"
  by (induction s) (auto simp: replace_cr_def)

lemma availableText_no_break:
  "CHR 0x0A \<notin> set localPort \<Longrightarrow> CHR 0x0D \<notin> set localPort \<Longrightarrow>
   CHR 0x0A \<notin> set (availableText localPort) \<and> CHR 0x0D \<notin> set (availableText localPort)"
  by (simp add: availableText_def)

lemma writePrefixedLines_available:
  assumes "CHR 0x0A \<notin> set localPort" and "CHR 0x0D \<notin> set localPort"
  shows "writePrefixedLines c_magenta pfx (availableText localPort) = [availableLine pfx localPort]"
proof -
  from availableText_no_break [OF assms]
  have n: "CHR 0x0A \<notin> set (availableText localPort)"
    and r: "CHR 0x0D \<notin> set (availableText localPort)"
    by simp_all
  have ne: "availableText localPort \<noteq> []"
    by (simp add: availableText_def)
  from n r have "split_on (CHR 0x0A) (replace_cr (replace_crlf (availableText localPort)))
      = [availableText localPort]"
    by (simp add: replace_crlf_id replace_cr_id split_on_single)
  with ne show ?thesis
    by (simp add: writePrefixedLines_def availableLine_def)
qed

lemma availableLine_not_other:
  "col \<in> {c_green, c_red, c_cyan} \<Longrightarrow> availableLine pfx localPort \<notin> set (writePrefixedLines col pfx' text)"
  by (auto simp: writePrefixedLines_def Let_def availableLine_def colorText_def
      c_magenta_def c_green_def c_red_def c_cyan_def)

lemma count_list_append: "count_list (xs @ ys) x = count_list xs x + count_list ys x"
  by (induction xs) auto

lemma count_list_absent: "x \<notin> set xs \<Longrightarrow> count_list xs x = 0"
  by (induction xs) auto

lemma onChildEvent_count:
  assumes "CHR 0x0A \<notin> set localPort" and "CHR 0x0D \<notin> set localPort"
  shows "count_list (written (onChildEvent pfx localPort st e)) (availableLine pfx localPort) =
           count_list (written st) (availableLine pfx localPort) +
           (if isStdout e \<and> \<not> printedAvailable st then 1 else 0) \<and>
         printedAvailable (onChildEvent pfx localPort st e) =
           (printedAvailable st \<or> isStdout e)"
proof (cases e)
  case (StdoutData d)
  then show ?thesis
    using availableLine_not_other [of c_green pfx localPort pfx d]
    by (simp add: isStdout_def Let_def count_list_append count_list_absent
        writePrefixedLines_available [OF assms])
next
  case (StderrData d)
  then show ?thesis
    using availableLine_not_other [of c_red pfx localPort pfx d]
    by (simp add: isStdout_def count_list_append count_list_absent)
next
  case (Close code)
  then show ?thesis
    using availableLine_not_other [of c_cyan pfx localPort pfx]
    by (simp add: isStdout_def count_list_append count_list_absent)
qed

lemma foldl_onChildEvent_count:
  assumes "CHR 0x0A \<notin> set localPort" and "CHR 0x0D \<notin> set localPort"
  shows "count_list (written (foldl (onChildEvent pfx localPort) st evs)) (availableLine pfx localPort) =
           count_list (written st) (availableLine pfx localPort) +
           (if (\<exists>e\<in>set evs. isStdout e) \<and> \<not> printedAvailable st then 1 else 0) \<and>
         printedAvailable (foldl (onChildEvent pfx localPort) st evs) =
           (printedAvailable st \<or> (\<exists>e\<in>set evs. isStdout e))"
proof (induction evs arbitrary: st)
  case Nil
  show ?case by simp
next
  case (Cons e evs)
  from onChildEvent_count [OF assms, of pfx st e] Cons.IH [of "onChildEvent pfx localPort st e"]
  show ?case
    by auto
qed

lemma foldl_onChildEvent_append:
  "foldl (onChildEvent pfx localPort) st (pre @ [e]) =
     onChildEvent pfx localPort (foldl (onChildEvent pfx localPort) st pre) e"
  by simp

text \<open>
  Claim C4. For a child whose local port holds no line break (every accepted port is a
  trimmed numeric literal), and every sequence of events delivered to it: the line
  \<open>Service available at: http://localhost:<localPort>\<close> is written exactly once if some
  standard-output chunk arrives and never otherwise, whatever standard-error chunks or
  exit events there are; and the first standard-output chunk writes it directly before
  that chunk's own prefixed lines.
\<close>

theorem available_announced_once:
  assumes "CHR 0x0A \<notin> set localPort" and "CHR 0x0D \<notin> set localPort"
  shows "count_list (written (childOutput pfx localPort evs)) (availableLine pfx localPort) =
           (if \<exists>e\<in>set evs. isStdout e then 1 else 0) \<and>
         (\<forall>pre d. (\<forall>e\<in>set pre. \<not> isStdout e) \<longrightarrow>
            written (childOutput pfx localPort (pre @ [StdoutData d])) =
              written (childOutput pfx localPort pre) @ [availableLine pfx localPort] @
              writePrefixedLines c_green pfx d)"
proof -
  have first: "count_list (written (childOutput pfx localPort evs)) (availableLine pfx localPort) =
           (if \<exists>e\<in>set evs. isStdout e then 1 else 0)"
    using foldl_onChildEvent_count [OF assms, of pfx spawned evs]
    by (simp add: childOutput_def spawned_def)
  have second: "written (childOutput pfx localPort (pre @ [StdoutData d])) =
              written (childOutput pfx localPort pre) @ [availableLine pfx localPort] @
              writePrefixedLines c_green pfx d"
    if "\<forall>e\<in>set pre. \<not> isStdout e" for pre d
  proof -
    from that foldl_onChildEvent_count [OF assms, of pfx spawned pre]
    have "\<not> printedAvailable (childOutput pfx localPort pre)"
      by (simp add: childOutput_def spawned_def)
    then show ?thesis
      by (simp add: childOutput_def Let_def writePrefixedLines_available [OF assms])
  qed
  from first second show ?thesis
    by blast
qed

theorem available_announced_once_witness:
  "CHR 0x0A \<notin> set ''3000'' \<and> CHR 0x0D \<notin> set ''3000'' \<and>
   count_list
     (written (childOutput ''[api:3000]'' ''3000''
        [StderrData ''warn'', StdoutData ''Forwarding'', StdoutData ''more'']))
     (availableLine ''[api:3000]'' ''3000'') = 1 \<and>
   written (childOutput ''[api:3000]'' ''3000'' ([StderrData ''warn''] @ [StdoutData ''Forwarding''])) =
     written (childOutput ''[api:3000]'' ''3000'' [StderrData ''warn'']) @
     [availableLine ''[api:3000]'' ''3000''] @
     writePrefixedLines c_green ''[api:3000]'' ''Forwarding''"
proof -
  have n: "CHR 0x0A \<notin> set ''3000''" and r: "CHR 0x0D \<notin> set ''3000''"
    by simp_all
  have s: "\<exists>e\<in>set [StderrData ''warn'', StdoutData ''Forwarding'', StdoutData ''more'']. isStdout e"
    by (simp add: isStdout_def)
  have p: "\<forall>e\<in>set [StderrData ''warn'']. \<not> isStdout e"
    by (simp add: isStdout_def)
  note w = available_announced_once [OF n r, of "''[api:3000]''"
      "[StderrData ''warn'', StdoutData ''Forwarding'', StdoutData ''more'']"]
  from w s have once: "count_list
     (written (childOutput ''[api:3000]'' ''3000''
        [StderrData ''warn'', StdoutData ''Forwarding'', StdoutData ''more'']))
     (availableLine ''[api:3000]'' ''3000'') = 1"
    by simp
  from w p have "written (childOutput ''[api:3000]'' ''3000''
        ([StderrData ''warn''] @ [StdoutData ''Forwarding''])) =
     written (childOutput ''[api:3000]'' ''3000'' [StderrData ''warn'']) @
     [availableLine ''[api:3000]'' ''3000''] @
     writePrefixedLines c_green ''[api:3000]'' ''Forwarding''"
    by blast
  with once n r show ?thesis
    by blast
qed

section \<open>Shutdown coordinator: \<open>attachGracefulShutdown\<close>\<close>

text \<open>
  What the shutdown path does to the outside world, in order. A child process is named by
  its position in the array \<open>processes\<close>. The two timers are recorded when they are armed:
  the forced kill of a child after 1500 ms and the exit of the script after 200 ms.
\<close>

datatype platform = Win32 | Posix

record child_process =
  pid :: "nat option"

datatype effect =
    PrintLine string string
  | CloseReadline
  | Kill nat
  | Taskkill nat nat
  | KillSignal nat string
  | ForceKillTimer nat
  | ExitTimer

text \<open>
  \<open>killPortForwardProcess\<close>: nothing for a handle without a process id; otherwise the
  attempts of the platform. Every attempt is inside a \<open>try\<close> whose \<open>catch\<close> is empty, so
  an attempt that throws changes nothing else.
\<close>

definition killPortForwardProcess :: "platform \<Rightarrow> nat \<Rightarrow> child_process \<Rightarrow> effect list" where
  "killPortForwardProcess os i p =
     (case pid p of
        None \<Rightarrow> []
      | Some n \<Rightarrow>
          if n = 0 then []
          else (case os of
                  Win32 \<Rightarrow> [Kill i, Taskkill i n]
                | Posix \<Rightarrow> [KillSignal i ''SIGINT'', ForceKillTimer i]))"

text \<open>
  The state of the coordinator: the closure variable \<open>isShuttingDown\<close>, whether the
  one-shot listeners registered with \<open>process.once\<close> are still in place, and the effects so
  far.
\<close>

record shutdown_state =
  isShuttingDown :: bool
  sigintListener :: bool
  sigtermListener :: bool
  effects :: "effect list"

definition shutdown ::
  "platform \<Rightarrow> child_process list \<Rightarrow> string option \<Rightarrow> shutdown_state \<Rightarrow> shutdown_state" where
  "shutdown os processes reason st =
     (if isShuttingDown st then st
      else st\<lparr>isShuttingDown := True,
              effects := effects st @
                (case reason of
                   None \<Rightarrow> []
                 | Some r \<Rightarrow>
                     if r = [] then []
                     else [PrintLine c_cyan (CHR 0x0A # ''Shutting down ('' @ r @ '')...'')]) @
                [CloseReadline] @
                concat (map (\<lambda>(i, p). killPortForwardProcess os i p) (enumerate 0 processes)) @
                [ExitTimer]\<rparr>)"

definition attachGracefulShutdown :: shutdown_state where
  "attachGracefulShutdown =
     \<lparr>isShuttingDown = False, sigintListener = True, sigtermListener = True, effects = []\<rparr>"

text \<open>
  A trigger is one of the two signals or a direct call of the returned function. A signal
  whose one-shot listener has already run finds no listener of the script.
\<close>

datatype trigger = Sigint | Sigterm | DirectCall "string option"

fun deliver ::
  "platform \<Rightarrow> child_process list \<Rightarrow> shutdown_state \<Rightarrow> trigger \<Rightarrow> shutdown_state" where
  "deliver os processes st Sigint =
     (if sigintListener st
      then shutdown os processes (Some ''SIGINT / Ctrl+C'') (st\<lparr>sigintListener := False\<rparr>)
      else st)"
| "deliver os processes st Sigterm =
     (if sigtermListener st
      then shutdown os processes (Some ''SIGTERM'') (st\<lparr>sigtermListener := False\<rparr>)
      else st)"
| "deliver os processes st (DirectCall reason) = shutdown os processes reason st"

definition deliverAll ::
  "platform \<Rightarrow> child_process list \<Rightarrow> trigger list \<Rightarrow> shutdown_state" where
  "deliverAll os processes ts = foldl (deliver os processes) attachGracefulShutdown ts"

definition isPrintLine :: "effect \<Rightarrow> bool" where
  "isPrintLine e = (case e of PrintLine col text \<Rightarrow> True | _ \<Rightarrow> False)"

text \<open>The child an effect is aimed at, if any.\<close>

definition effectChild :: "effect \<Rightarrow> nat option" where
  "effectChild e =
     (case e of
        Kill i \<Rightarrow> Some i
      | Taskkill i n \<Rightarrow> Some i
      | KillSignal i sig \<Rightarrow> Some i
      | ForceKillTimer i \<Rightarrow> Some i
      | _ \<Rightarrow> None)"

subsection \<open>Properties of the shutdown coordinator\<close>

lemma kill_effects_child:
  "e \<in> set (killPortForwardProcess os i p) \<Longrightarrow> effectChild e = Some i"
  by (auto simp: killPortForwardProcess_def effectChild_def split: option.splits if_splits platform.splits)

lemma kill_effects_distinct: "distinct (killPortForwardProcess os i p)"
  by (simp add: killPortForwardProcess_def split: option.splits platform.splits)

lemma kill_all_children:
  "e \<in> set (concat (map (\<lambda>(i, p). killPortForwardProcess os i p) (enumerate n ps))) \<Longrightarrow>
     \<exists>i. effectChild e = Some i \<and> n \<le> i"
proof (induction ps arbitrary: n)
  case Nil
  then show ?case by simp
next
  case (Cons p ps)
  from Cons.prems have "e \<in> set (killPortForwardProcess os n p) \<or>
      e \<in> set (concat (map (\<lambda>(i, p). killPortForwardProcess os i p) (enumerate (Suc n) ps)))"
    by simp
  then show ?case
  proof
    assume "e \<in> set (killPortForwardProcess os n p)"
    then show ?thesis
      by (auto dest: kill_effects_child)
  next
    assume "e \<in> set (concat (map (\<lambda>(i, p). killPortForwardProcess os i p) (enumerate (Suc n) ps)))"
    from Cons.IH [OF this] show ?thesis
      by auto
  qed
qed

lemma kill_all_distinct:
  "distinct (concat (map (\<lambda>(i, p). killPortForwardProcess os i p) (enumerate n ps)))"
proof (induction ps arbitrary: n)
  case Nil
  show ?case by simp
next
  case (Cons p ps)
  have "set (killPortForwardProcess os n p) \<inter>
      set (concat (map (\<lambda>(i, p). killPortForwardProcess os i p) (enumerate (Suc n) ps))) = {}"
  proof (rule ccontr)
    assume "\<not> ?thesis"
    then obtain e where a: "e \<in> set (killPortForwardProcess os n p)"
      and b: "e \<in> set (concat (map (\<lambda>(i, p). killPortForwardProcess os i p) (enumerate (Suc n) ps)))"
      by blast
    from kill_effects_child [OF a] kill_all_children [OF b] show False
      by auto
  qed
  with Cons.IH [of "Suc n"] kill_effects_distinct [of os n p] show ?case
    by simp
qed

lemma kill_all_no_print:
  "e \<in> set (concat (map (\<lambda>(i, p). killPortForwardProcess os i p) (enumerate n ps))) \<Longrightarrow>
     \<not> isPrintLine e \<and> e \<noteq> CloseReadline \<and> e \<noteq> ExitTimer"
proof -
  assume "e \<in> set (concat (map (\<lambda>(i, p). killPortForwardProcess os i p) (enumerate n ps)))"
  from kill_all_children [OF this] obtain i where "effectChild e = Some i"
    by blast
  then show ?thesis
    by (cases e) (simp_all add: effectChild_def isPrintLine_def)
qed

lemma cleanup_sequence_once:
  assumes "distinct ks" and "\<forall>e\<in>set ks. \<not> isPrintLine e \<and> e \<noteq> CloseReadline \<and> e \<noteq> ExitTimer"
    and "ann = [] \<or> (\<exists>col msg. ann = [PrintLine col msg])"
  shows "distinct (ann @ [CloseReadline] @ ks @ [ExitTimer]) \<and>
         length (filter isPrintLine (ann @ [CloseReadline] @ ks @ [ExitTimer])) \<le> 1"
proof -
  from assms(2) have np: "filter isPrintLine ks = []"
    by (simp only: filter_empty_conv) blast
  from assms(2) have nc: "CloseReadline \<notin> set ks" and ne: "ExitTimer \<notin> set ks"
    by blast+
  have pk: "PrintLine col msg \<notin> set ks" for col msg
    using assms(2) by (auto simp: isPrintLine_def)
  from assms(3) show ?thesis
  proof
    assume "ann = []"
    with np nc ne assms(1) show ?thesis
      by (simp add: isPrintLine_def)
  next
    assume "\<exists>col msg. ann = [PrintLine col msg]"
    then obtain col msg where "ann = [PrintLine col msg]"
      by blast
    with np nc ne pk [of col msg] assms(1) show ?thesis
      by (simp add: isPrintLine_def)
  qed
qed

lemma shutdown_first_effects:
  "distinct (effects (shutdown os ps reason attachGracefulShutdown)) \<and>
   length (filter isPrintLine (effects (shutdown os ps reason attachGracefulShutdown))) \<le> 1"
proof -
  define ks where "ks = concat (map (\<lambda>(i, p). killPortForwardProcess os i p) (enumerate 0 ps))"
  define ann where "ann = (case reason of
                   None \<Rightarrow> []
                 | Some r \<Rightarrow>
                     if r = [] then []
                     else [PrintLine c_cyan (CHR 0x0A # ''Shutting down ('' @ r @ '')...'')])"
  have d: "distinct ks"
    unfolding ks_def by (rule kill_all_distinct)
  have n: "\<forall>e\<in>set ks. \<not> isPrintLine e \<and> e \<noteq> CloseReadline \<and> e \<noteq> ExitTimer"
    unfolding ks_def using kill_all_no_print [of _ os 0 ps] by blast
  have a: "ann = [] \<or> (\<exists>col msg. ann = [PrintLine col msg])"
    unfolding ann_def by (simp split: option.splits)
  have "effects (shutdown os ps reason attachGracefulShutdown) =
      ann @ [CloseReadline] @ ks @ [ExitTimer]"
    by (simp add: shutdown_def attachGracefulShutdown_def ks_def ann_def)
  with cleanup_sequence_once [OF d n a] show ?thesis
    by simp
qed

lemma deliver_when_shutting_down:
  "isShuttingDown st \<Longrightarrow>
     effects (deliver os ps st t) = effects st \<and> isShuttingDown (deliver os ps st t)"
  by (cases t) (simp_all add: shutdown_def)

lemma deliverAll_when_shutting_down:
  "isShuttingDown st \<Longrightarrow>
     effects (foldl (deliver os ps) st ts) = effects st \<and>
     isShuttingDown (foldl (deliver os ps) st ts)"
proof (induction ts arbitrary: st)
  case Nil
  then show ?case by simp
next
  case (Cons t ts)
  from deliver_when_shutting_down [OF Cons.prems, of os ps t]
  have a: "effects (deliver os ps st t) = effects st" and b: "isShuttingDown (deliver os ps st t)"
    by simp_all
  from Cons.IH [OF b] a show ?case
    by simp
qed

lemma first_trigger_shuts_down:
  "\<exists>reason.
     effects (deliver os ps attachGracefulShutdown t) =
       effects (shutdown os ps reason attachGracefulShutdown) \<and>
     isShuttingDown (deliver os ps attachGracefulShutdown t)"
proof (cases t)
  case Sigint
  then show ?thesis
    by (intro exI [of _ "Some ''SIGINT / Ctrl+C''"])
      (simp add: shutdown_def attachGracefulShutdown_def)
next
  case Sigterm
  then show ?thesis
    by (intro exI [of _ "Some ''SIGTERM''"])
      (simp add: shutdown_def attachGracefulShutdown_def)
next
  case (DirectCall reason)
  then show ?thesis
    by (intro exI [of _ reason]) (simp add: shutdown_def attachGracefulShutdown_def)
qed

text \<open>
  Claim C3. For every sequence of shutdown triggers, only the first one runs the cleanup:
  the effects after the whole sequence are those of its first trigger; among them the
  shutting-down announcement is printed at most once and no effect occurs twice, so each
  tracked child (named by its position) receives each termination attempt at most once;
  and a trigger that arrives while the coordinator is already shutting down leaves the
  effects as they are.
\<close>

theorem shutdown_runs_once:
  "effects (deliverAll os ps (t # ts)) = effects (deliverAll os ps [t]) \<and>
   length (filter isPrintLine (effects (deliverAll os ps ts'))) \<le> 1 \<and>
   distinct (effects (deliverAll os ps ts')) \<and>
   (isShuttingDown st \<longrightarrow>
      effects (deliver os ps st t') = effects st \<and> isShuttingDown (deliver os ps st t'))"
proof -
  obtain reason where first: "effects (deliver os ps attachGracefulShutdown t) =
       effects (shutdown os ps reason attachGracefulShutdown)"
    and down: "isShuttingDown (deliver os ps attachGracefulShutdown t)"
    using first_trigger_shuts_down [of os ps t] by blast
  have one: "effects (deliverAll os ps (t # ts)) = effects (deliverAll os ps [t])"
    using deliverAll_when_shutting_down [OF down, of os ps ts]
    by (simp add: deliverAll_def)
  have all: "length (filter isPrintLine (effects (deliverAll os ps us))) \<le> 1 \<and>
      distinct (effects (deliverAll os ps us))" for us
  proof (cases us)
    case Nil
    then show ?thesis
      by (simp add: deliverAll_def attachGracefulShutdown_def)
  next
    case (Cons u us')
    obtain reason' where f: "effects (deliver os ps attachGracefulShutdown u) =
         effects (shutdown os ps reason' attachGracefulShutdown)"
      and d: "isShuttingDown (deliver os ps attachGracefulShutdown u)"
      using first_trigger_shuts_down [of os ps u] by blast
    from deliverAll_when_shutting_down [OF d, of os ps us'] f Cons
    have "effects (deliverAll os ps us) = effects (shutdown os ps reason' attachGracefulShutdown)"
      by (simp add: deliverAll_def)
    with shutdown_first_effects [of os ps reason'] show ?thesis
      by simp
  qed
  from one all [of ts'] deliver_when_shutting_down [of st os ps t'] show ?thesis
    by blast
qed

theorem shutdown_runs_once_witness:
  "effects (deliverAll Posix [\<lparr>pid = Some 41\<rparr>, \<lparr>pid = Some 42\<rparr>] [Sigint, Sigint, Sigterm]) =
     effects (deliverAll Posix [\<lparr>pid = Some 41\<rparr>, \<lparr>pid = Some 42\<rparr>] [Sigint]) \<and>
   effects (deliverAll Posix [\<lparr>pid = Some 41\<rparr>, \<lparr>pid = Some 42\<rparr>] [Sigint]) =
     [PrintLine c_cyan (CHR 0x0A # ''Shutting down (SIGINT / Ctrl+C)...''), CloseReadline,
      KillSignal 0 ''SIGINT'', ForceKillTimer 0, KillSignal 1 ''SIGINT'', ForceKillTimer 1,
      ExitTimer] \<and>
   isShuttingDown (deliverAll Posix [\<lparr>pid = Some 41\<rparr>, \<lparr>pid = Some 42\<rparr>] [Sigint]) \<and>
   effects (deliver Posix [\<lparr>pid = Some 41\<rparr>, \<lparr>pid = Some 42\<rparr>]
              (deliverAll Posix [\<lparr>pid = Some 41\<rparr>, \<lparr>pid = Some 42\<rparr>] [Sigint]) Sigterm) =
     effects (deliverAll Posix [\<lparr>pid = Some 41\<rparr>, \<lparr>pid = Some 42\<rparr>] [Sigint])"
proof -
  let ?ps = "[\<lparr>pid = Some 41\<rparr>, \<lparr>pid = Some 42\<rparr>]"
  have down: "isShuttingDown (deliverAll Posix ?ps [Sigint])"
    by (simp add: deliverAll_def attachGracefulShutdown_def shutdown_def)
  have eff: "effects (deliverAll Posix ?ps [Sigint]) =
     [PrintLine c_cyan (CHR 0x0A # ''Shutting down (SIGINT / Ctrl+C)...''), CloseReadline,
      KillSignal 0 ''SIGINT'', ForceKillTimer 0, KillSignal 1 ''SIGINT'', ForceKillTimer 1,
      ExitTimer]"
    by (simp add: deliverAll_def attachGracefulShutdown_def shutdown_def
        killPortForwardProcess_def)
  from shutdown_runs_once [where os = Posix and ps = ?ps and t = Sigint
      and ts = "[Sigint, Sigterm]" and st = "deliverAll Posix ?ps [Sigint]" and t' = Sigterm]
    down eff
  show ?thesis
    by blast
qed

section \<open>Catalog parser: \<open>parseServicesMap\<close>\<close>

text \<open>\<open>s.split(/\s+/)\<close>: the pieces between maximal runs of white space; a run at the
  start or at the end of the string leaves an empty piece there.\<close>

lemma split_ws_termination:
  assumes "dropWhile (\<lambda>c. \<not> isSpace c) s \<noteq> []"
  shows "length (dropWhile isSpace (dropWhile (\<lambda>c. \<not> isSpace c) s)) < length s"
proof -
  let ?rest = "dropWhile (\<lambda>c. \<not> isSpace c) s"
  from assms have "isSpace (hd ?rest)"
    using hd_dropWhile [of "\<lambda>c. \<not> isSpace c" s] by simp
  with assms have "dropWhile isSpace ?rest = dropWhile isSpace (tl ?rest)"
    by (cases ?rest) simp_all
  then have "length (dropWhile isSpace ?rest) \<le> length (tl ?rest)"
    using length_dropWhile_le [of isSpace "tl ?rest"] by simp
  also from assms have "\<dots> < length ?rest"
    by simp
  also have "\<dots> \<le> length s"
    by (rule length_dropWhile_le)
  finally show ?thesis .
qed

function split_ws :: "string \<Rightarrow> string list" where
  "split_ws s =
     (if dropWhile (\<lambda>c. \<not> isSpace c) s = [] then [takeWhile (\<lambda>c. \<not> isSpace c) s]
      else takeWhile (\<lambda>c. \<not> isSpace c) s #
           split_ws (dropWhile isSpace (dropWhile (\<lambda>c. \<not> isSpace c) s)))"
  by pat_completeness auto
termination
  by (relation "measure length") (simp_all add: split_ws_termination)

declare split_ws.simps [simp del]

text \<open>\<open>xs.indexOf(x)\<close> (\<open>None\<close> for \<open>-1\<close>) and \<open>xs[i]\<close> (\<open>None\<close> for \<open>undefined\<close>).\<close>

fun indexOf :: "'a list \<Rightarrow> 'a \<Rightarrow> nat option" where
  "indexOf [] x = None"
| "indexOf (y # ys) x = (if y = x then Some 0 else map_option Suc (indexOf ys x))"

fun at :: "'a list \<Rightarrow> nat option \<Rightarrow> 'a option" where
  "at xs None = None"
| "at xs (Some i) = (if i < length xs then Some (xs ! i) else None)"

text \<open>
  What the script can raise. The namespace is spliced into a regular expression unescaped;
  the model follows the expression only when the namespace has no character of the
  pattern syntax, so that the expression matches the namespace literally. Namespaces of
  the cluster are DNS labels (lower-case letters, digits and hyphens) and are always of
  that kind; for any other text the model stops with \<open>UnmodelledPattern\<close>.
\<close>

datatype js_error = TypeError string | Rejected string | UnmodelledPattern string

definition isPatternSyntax :: "char \<Rightarrow> bool" where
  "isPatternSyntax c = (c = CHR 0x5C \<or> c \<in> set ''^$.*+?()[]{}|'')"

record service_details =
  id' :: string
  "namespace" :: "string option"
  serviceName :: string

text \<open>A \<open>Map\<close> from short service name to an object keyed by environment, both in
  insertion order.\<close>

type_synonym catalog = "(string \<times> (string \<times> service_details) list) list"

definition envPrefixes :: "string list" where
  "envPrefixes = [''dev'', ''qa'', ''stg'', ''prod'']"

text \<open>\<open>serviceName.replace(/^(dev|qa|stg|prod)-/, "")\<close>.\<close>

definition stripEnvPrefix :: "string \<Rightarrow> string" where
  "stripEnvPrefix name =
     (case find (\<lambda>env. startsWith name (env @ ''-'')) envPrefixes of
        Some env \<Rightarrow> drop (length env + 1) name
      | None \<Rightarrow> name)"

text \<open>The guarded \<open>shortServiceName.replace(new RegExp(`^${namespaceColumn}-`, "g"), "")\<close>.\<close>

definition stripNamespace :: "string option \<Rightarrow> string \<Rightarrow> js_error + string" where
  "stripNamespace namespaceColumn name =
     (case namespaceColumn of
        None \<Rightarrow> Inr name
      | Some ns \<Rightarrow>
          if ns = [] then Inr name
          else if list_ex isPatternSyntax ns then Inl (UnmodelledPattern ns)
          else Inr (if startsWith name (ns @ ''-'') then drop (length ns + 1) name else name))"

text \<open>
  The two statements that store an entry: create the object of the service if the map
  has none, then assign the environment's property (the last assignment wins).
\<close>

definition upsert :: "string \<Rightarrow> string \<Rightarrow> service_details \<Rightarrow> catalog \<Rightarrow> catalog" where
  "upsert shortServiceName envPrefix details servicesMap =
     (let m = (if map_of servicesMap shortServiceName = None
               then AList.update shortServiceName [] servicesMap
               else servicesMap)
      in AList.map_entry shortServiceName (AList.update envPrefix details) m)"

definition entryOf :: "catalog \<Rightarrow> string \<Rightarrow> string \<Rightarrow> service_details option" where
  "entryOf servicesMap shortServiceName env =
     (case map_of servicesMap shortServiceName of
        None \<Rightarrow> None
      | Some envs \<Rightarrow> map_of envs env)"

text \<open>
  The body of the loop for one line: \<open>Inr None\<close> when the line stores nothing (the
  \<open>continue\<close> of the status filter, or fewer than three segments), \<open>Inr (Some \<dots>)\<close> with
  the key, the environment and the entry it stores, \<open>Inl\<close> when it raises: a line with no
  cell in the \<open>NAME\<close> column makes \<open>nameColumn.startsWith\<close> a call on \<open>undefined\<close>.
\<close>

definition parseRow ::
  "nat option \<Rightarrow> nat option \<Rightarrow> nat option \<Rightarrow> string option \<Rightarrow> string \<Rightarrow>
     js_error + (string \<times> string \<times> service_details) option" where
  "parseRow namespaceIndex nameIndex statusIndex namespaceArg line =
     (let columns = split_ws line;
          statusColumn = at columns statusIndex
      in if statusColumn \<noteq> None \<and> statusColumn \<noteq> Some ''Running'' then Inr None
         else
           let namespaceColumn =
                 (case namespaceArg of Some ns \<Rightarrow> Some ns | None \<Rightarrow> at columns namespaceIndex)
           in case at columns nameIndex of
                None \<Rightarrow> Inl (TypeError ''Cannot read properties of undefined (reading 'startsWith')'')
              | Some nameColumn \<Rightarrow>
                  let envPrefix =
                        (case find (\<lambda>env. startsWith nameColumn (env @ ''-'')) envPrefixes of
                           Some env \<Rightarrow> env
                         | None \<Rightarrow> ''default'');
                      parts = split_on CHR ''-'' nameColumn
                  in if 2 < length parts then
                       let svcName = join ''-'' (take (length parts - 2) parts);
                           serviceId = join ''-'' (drop (length parts - 2) parts)
                       in case stripNamespace namespaceColumn (stripEnvPrefix svcName) of
                            Inl e \<Rightarrow> Inl e
                          | Inr shortServiceName \<Rightarrow>
                              Inr (Some (shortServiceName, envPrefix,
                                \<lparr>id' = serviceId, namespace = namespaceColumn,
                                 serviceName = svcName\<rparr>))
                     else Inr None)"

fun rowsLoop ::
  "nat option \<Rightarrow> nat option \<Rightarrow> nat option \<Rightarrow> string option \<Rightarrow> string list \<Rightarrow> catalog \<Rightarrow>
     js_error + catalog" where
  "rowsLoop namespaceIndex nameIndex statusIndex namespaceArg [] servicesMap = Inr servicesMap"
| "rowsLoop namespaceIndex nameIndex statusIndex namespaceArg (line # rest) servicesMap =
     (case parseRow namespaceIndex nameIndex statusIndex namespaceArg line of
        Inl e \<Rightarrow> Inl e
      | Inr None \<Rightarrow> rowsLoop namespaceIndex nameIndex statusIndex namespaceArg rest servicesMap
      | Inr (Some (shortServiceName, envPrefix, details)) \<Rightarrow>
          rowsLoop namespaceIndex nameIndex statusIndex namespaceArg rest
            (upsert shortServiceName envPrefix details servicesMap))"

text \<open>The lines of the listing, the position of a column in its header line, and the
  lines after the header.\<close>

definition listingLines :: "string \<Rightarrow> string list" where
  "listingLines podsData = split_on (CHR 0x0A) (trim podsData)"

definition headerIndex :: "string \<Rightarrow> string \<Rightarrow> nat option" where
  "headerIndex podsData column = indexOf (split_ws (hd (listingLines podsData))) column"

definition dataRows :: "string \<Rightarrow> string list" where
  "dataRows podsData = tl (listingLines podsData)"

definition parseServicesMap :: "string \<Rightarrow> string option \<Rightarrow> js_error + catalog" where
  "parseServicesMap podsData namespaceArg =
     rowsLoop (headerIndex podsData ''NAMESPACE'') (headerIndex podsData ''NAME'')
       (headerIndex podsData ''STATUS'') namespaceArg (dataRows podsData) []"

text \<open>The cell of a line in a column of the header.\<close>

definition cell :: "string \<Rightarrow> nat option \<Rightarrow> string option" where
  "cell line column = at (split_ws line) column"

definition listingRow ::
  "string \<Rightarrow> string option \<Rightarrow> string \<Rightarrow> js_error + (string \<times> string \<times> service_details) option" where
  "listingRow podsData namespaceArg line =
     parseRow (headerIndex podsData ''NAMESPACE'') (headerIndex podsData ''NAME'')
       (headerIndex podsData ''STATUS'') namespaceArg line"

subsection \<open>Properties of the catalog parser\<close>

lemma entryOf_upsert:
  "entryOf (upsert k env d m) k' env' =
     (if k' = k \<and> env' = env then Some d else entryOf m k' env')"
  by (auto simp: upsert_def entryOf_def Let_def map_of_map_entry update_conv'
      split: option.splits)

lemma rowsLoop_entry_origin:
  "rowsLoop ni nmi si ns rows m = Inr m' \<Longrightarrow> entryOf m' k env = Some d \<Longrightarrow>
     entryOf m k env = Some d \<or> (\<exists>line\<in>set rows. parseRow ni nmi si ns line = Inr (Some (k, env, d)))"
proof (induction rows arbitrary: m)
  case Nil
  then show ?case by simp
next
  case (Cons line rest)
  show ?case
  proof (cases "parseRow ni nmi si ns line")
    case (Inl e)
    with Cons.prems show ?thesis by simp
  next
    case (Inr r)
    show ?thesis
    proof (cases r)
      case None
      with Inr Cons.prems have "rowsLoop ni nmi si ns rest m = Inr m'"
        by simp
      from Cons.IH [OF this Cons.prems(2)] show ?thesis
        by auto
    next
      case (Some entry)
      obtain k1 env1 d1 where entry: "entry = (k1, env1, d1)"
        by (cases entry)
      with Some Inr Cons.prems have "rowsLoop ni nmi si ns rest (upsert k1 env1 d1 m) = Inr m'"
        by simp
      from Cons.IH [OF this Cons.prems(2)] Inr Some entry show ?thesis
        by (auto simp: entryOf_upsert split: if_splits)
    qed
  qed
qed

lemma rowsLoop_entry_present:
  "rowsLoop ni nmi si ns rows m = Inr m' \<Longrightarrow>
     entryOf m k env \<noteq> None \<or> (\<exists>line\<in>set rows. \<exists>d. parseRow ni nmi si ns line = Inr (Some (k, env, d))) \<Longrightarrow>
     entryOf m' k env \<noteq> None"
proof (induction rows arbitrary: m)
  case Nil
  then show ?case by simp
next
  case (Cons line rest)
  show ?case
  proof (cases "parseRow ni nmi si ns line")
    case (Inl e)
    with Cons.prems show ?thesis by simp
  next
    case (Inr r)
    show ?thesis
    proof (cases r)
      case None
      with Inr Cons.prems have loop: "rowsLoop ni nmi si ns rest m = Inr m'"
        by simp
      from Cons.prems(2) Inr None
      have "entryOf m k env \<noteq> None \<or>
          (\<exists>line\<in>set rest. \<exists>d. parseRow ni nmi si ns line = Inr (Some (k, env, d)))"
        by auto
      from Cons.IH [OF loop this] show ?thesis .
    next
      case (Some entry)
      obtain k1 env1 d1 where entry: "entry = (k1, env1, d1)"
        by (cases entry)
      with Some Inr Cons.prems
      have loop: "rowsLoop ni nmi si ns rest (upsert k1 env1 d1 m) = Inr m'"
        by simp
      from Cons.prems(2) Inr Some entry
      have "entryOf (upsert k1 env1 d1 m) k env \<noteq> None \<or>
          (\<exists>line\<in>set rest. \<exists>d. parseRow ni nmi si ns line = Inr (Some (k, env, d)))"
        by (auto simp: entryOf_upsert)
      from Cons.IH [OF loop this] show ?thesis .
    qed
  qed
qed

lemma rowsLoop_rows_parsed:
  "rowsLoop ni nmi si ns rows m = Inr m' \<Longrightarrow> line \<in> set rows \<Longrightarrow>
     \<exists>r. parseRow ni nmi si ns line = Inr r"
proof (induction rows arbitrary: m)
  case Nil
  then show ?case by simp
next
  case (Cons l rest)
  from Cons.prems(1) obtain r where r: "parseRow ni nmi si ns l = Inr r"
    by (cases "parseRow ni nmi si ns l") simp_all
  show ?case
  proof (cases "line = l")
    case True
    with r show ?thesis by blast
  next
    case False
    with Cons.prems(2) have mem: "line \<in> set rest" by simp
    from r Cons.prems(1) obtain m1 where "rowsLoop ni nmi si ns rest m1 = Inr m'"
      by (cases r) (auto split: prod.splits)
    from Cons.IH [OF this mem] show ?thesis .
  qed
qed

lemma parseRow_not_running:
  "cell line si = Some st \<Longrightarrow> st \<noteq> ''Running'' \<Longrightarrow> parseRow ni nmi si ns line = Inr None"
  by (simp add: parseRow_def cell_def Let_def)

lemma parseRow_stored_status:
  "parseRow ni nmi si ns line = Inr (Some entry) \<Longrightarrow>
     cell line si = None \<or> cell line si = Some ''Running''"
  by (auto simp: parseRow_def cell_def Let_def split: if_splits)

lemma parseRow_no_status_stores:
  "parseRow ni nmi None ns line = Inr r \<Longrightarrow> cell line nmi = Some nm \<Longrightarrow>
     2 < length (split_on CHR ''-'' nm) \<Longrightarrow> \<exists>k env d. r = Some (k, env, d)"
  by (auto simp: parseRow_def cell_def Let_def split: sum.splits)

lemma parseRow_namespace:
  "parseRow ni nmi si ns line = Inr (Some (k, env, d)) \<Longrightarrow>
     namespace d = (case ns of Some n \<Rightarrow> Some n | None \<Rightarrow> cell line ni)"
  by (auto simp: parseRow_def cell_def Let_def split: if_splits option.splits sum.splits)

text \<open>
  Claim C5. Of a listing that \<open>parseServicesMap\<close> turns into a catalog: when the header
  line has a \<open>STATUS\<close> column, a row whose cell in that column is other than \<open>Running\<close>
  stores nothing, and every entry of the catalog is the entry stored by a row whose status
  cell is \<open>Running\<close> (or by a row too short to have a cell in that column, which the
  filter lets pass); when the header has no \<open>STATUS\<close> column, every row whose name has at
  least three hyphen-separated segments stores an entry, and the catalog has an entry under
  that row's short service name and environment.
\<close>

theorem parseServicesMap_status_filter:
  assumes "parseServicesMap podsData namespaceArg = Inr catalog"
  shows "(headerIndex podsData ''STATUS'' \<noteq> None \<longrightarrow>
            (\<forall>line\<in>set (dataRows podsData). \<forall>st.
               cell line (headerIndex podsData ''STATUS'') = Some st \<and> st \<noteq> ''Running'' \<longrightarrow>
               listingRow podsData namespaceArg line = Inr None) \<and>
            (\<forall>k env d. entryOf catalog k env = Some d \<longrightarrow>
               (\<exists>line\<in>set (dataRows podsData).
                  listingRow podsData namespaceArg line = Inr (Some (k, env, d)) \<and>
                  (cell line (headerIndex podsData ''STATUS'') = None \<or>
                   cell line (headerIndex podsData ''STATUS'') = Some ''Running'')))) \<and>
         (headerIndex podsData ''STATUS'' = None \<longrightarrow>
            (\<forall>line\<in>set (dataRows podsData). \<forall>nm.
               cell line (headerIndex podsData ''NAME'') = Some nm \<and>
               2 < length (split_on CHR ''-'' nm) \<longrightarrow>
               (\<exists>k env d. listingRow podsData namespaceArg line = Inr (Some (k, env, d)) \<and>
                  entryOf catalog k env \<noteq> None)))"
proof -
  let ?ni = "headerIndex podsData ''NAMESPACE''"
  let ?nmi = "headerIndex podsData ''NAME''"
  let ?si = "headerIndex podsData ''STATUS''"
  from assms have loop: "rowsLoop ?ni ?nmi ?si namespaceArg (dataRows podsData) [] = Inr catalog"
    by (simp add: parseServicesMap_def)
  have skipped: "listingRow podsData namespaceArg line = Inr None"
    if "cell line ?si = Some st \<and> st \<noteq> ''Running''" for line st
    using that by (simp add: listingRow_def parseRow_not_running)
  have origin: "\<exists>line\<in>set (dataRows podsData).
        listingRow podsData namespaceArg line = Inr (Some (k, env, d)) \<and>
        (cell line ?si = None \<or> cell line ?si = Some ''Running'')"
    if e: "entryOf catalog k env = Some d" for k env d
  proof -
    from rowsLoop_entry_origin [OF loop e]
    obtain line where line: "line \<in> set (dataRows podsData)"
      and row: "parseRow ?ni ?nmi ?si namespaceArg line = Inr (Some (k, env, d))"
      by (auto simp: entryOf_def)
    from parseRow_stored_status [OF row] line row show ?thesis
      by (auto simp: listingRow_def)
  qed
  have stored: "\<exists>k env d. listingRow podsData namespaceArg line = Inr (Some (k, env, d)) \<and>
        entryOf catalog k env \<noteq> None"
    if none: "?si = None" and line: "line \<in> set (dataRows podsData)"
      and nm: "cell line ?nmi = Some nm \<and> 2 < length (split_on CHR ''-'' nm)" for line nm
  proof -
    from rowsLoop_rows_parsed [OF loop line]
    obtain r where r: "parseRow ?ni ?nmi ?si namespaceArg line = Inr r"
      by blast
    with none nm parseRow_no_status_stores [of ?ni ?nmi namespaceArg line r nm]
    obtain k env d where ked: "r = Some (k, env, d)"
      by auto
    with r line have "\<exists>line\<in>set (dataRows podsData). \<exists>d.
        parseRow ?ni ?nmi ?si namespaceArg line = Inr (Some (k, env, d))"
      by blast
    then have "entryOf catalog k env \<noteq> None"
      using rowsLoop_entry_present [OF loop, of k env] by blast
    with r ked show ?thesis
      by (auto simp: listingRow_def)
  qed
  from skipped origin stored show ?thesis
    by blast
qed

text \<open>
  Claim C9. Of a listing that \<open>parseServicesMap\<close> turns into a catalog: with an explicit
  namespace argument every entry records that namespace, whatever the \<open>NAMESPACE\<close> column
  holds; without one, an entry records the \<open>NAMESPACE\<close> cell of the row that stored it.
\<close>

theorem parseServicesMap_namespace:
  assumes "parseServicesMap podsData namespaceArg = Inr catalog"
    and "entryOf catalog k env = Some d"
  shows "(\<forall>ns. namespaceArg = Some ns \<longrightarrow> namespace d = Some ns) \<and>
         (namespaceArg = None \<longrightarrow>
            (\<exists>line\<in>set (dataRows podsData).
               listingRow podsData None line = Inr (Some (k, env, d)) \<and>
               namespace d = cell line (headerIndex podsData ''NAMESPACE'')))"
proof -
  let ?ni = "headerIndex podsData ''NAMESPACE''"
  let ?nmi = "headerIndex podsData ''NAME''"
  let ?si = "headerIndex podsData ''STATUS''"
  from assms(1) have loop: "rowsLoop ?ni ?nmi ?si namespaceArg (dataRows podsData) [] = Inr catalog"
    by (simp add: parseServicesMap_def)
  from rowsLoop_entry_origin [OF loop assms(2)]
  obtain line where line: "line \<in> set (dataRows podsData)"
    and row: "parseRow ?ni ?nmi ?si namespaceArg line = Inr (Some (k, env, d))"
    by (auto simp: entryOf_def)
  from parseRow_namespace [OF row] line row show ?thesis
    by (auto simp: listingRow_def)
qed

definition listingWithStatus :: string where
  "listingWithStatus =
     ''NAME READY STATUS'' @ CHR 0x0A # ''dev-api-7d9-x1 1/1 Running'' @
       CHR 0x0A # ''qa-api-7d9-x2 0/1 Pending''"

definition listingWithoutStatus :: string where
  "listingWithoutStatus =
     ''NAMESPACE NAME'' @ CHR 0x0A # ''team1 dev-team1-api-7d9-x1'' @ CHR 0x0A # ''team1 pod''"

theorem parseServicesMap_status_filter_witness:
  "parseServicesMap listingWithStatus None =
     Inr [(''api'', [(''dev'', \<lparr>id' = ''7d9-x1'', namespace = None, serviceName = ''dev-api''\<rparr>)])] \<and>
   headerIndex listingWithStatus ''STATUS'' = Some 2 \<and>
   ''qa-api-7d9-x2 0/1 Pending'' \<in> set (dataRows listingWithStatus) \<and>
   cell ''qa-api-7d9-x2 0/1 Pending'' (Some 2) = Some ''Pending'' \<and>
   listingRow listingWithStatus None ''qa-api-7d9-x2 0/1 Pending'' = Inr None \<and>
   parseServicesMap listingWithoutStatus None =
     Inr [(''api'', [(''dev'', \<lparr>id' = ''7d9-x1'', namespace = Some ''team1'',
                              serviceName = ''dev-team1-api''\<rparr>)])] \<and>
   headerIndex listingWithoutStatus ''STATUS'' = None \<and>
   ''team1 dev-team1-api-7d9-x1'' \<in> set (dataRows listingWithoutStatus) \<and>
   cell ''team1 dev-team1-api-7d9-x1'' (headerIndex listingWithoutStatus ''NAME'') =
     Some ''dev-team1-api-7d9-x1'' \<and>
   (\<exists>k env d. listingRow listingWithoutStatus None ''team1 dev-team1-api-7d9-x1'' =
        Inr (Some (k, env, d)) \<and>
      entryOf [(''api'', [(''dev'', \<lparr>id' = ''7d9-x1'', namespace = Some ''team1'',
                                    serviceName = ''dev-team1-api''\<rparr>)])] k env \<noteq> None)"
proof -
  have p1: "parseServicesMap listingWithStatus None =
     Inr [(''api'', [(''dev'', \<lparr>id' = ''7d9-x1'', namespace = None, serviceName = ''dev-api''\<rparr>)])]"
    by code_simp
  have h1: "headerIndex listingWithStatus ''STATUS'' = Some 2"
    by code_simp
  have m1: "''qa-api-7d9-x2 0/1 Pending'' \<in> set (dataRows listingWithStatus)"
    by code_simp
  have c1: "cell ''qa-api-7d9-x2 0/1 Pending'' (Some 2) = Some ''Pending''"
    by code_simp
  have ne: "''Pending'' \<noteq> ''Running''"
    by simp
  from parseServicesMap_status_filter [OF p1] h1 m1 c1 ne
  have r1: "listingRow listingWithStatus None ''qa-api-7d9-x2 0/1 Pending'' = Inr None"
    by auto
  have p2: "parseServicesMap listingWithoutStatus None =
     Inr [(''api'', [(''dev'', \<lparr>id' = ''7d9-x1'', namespace = Some ''team1'',
                              serviceName = ''dev-team1-api''\<rparr>)])]"
    by code_simp
  have h2: "headerIndex listingWithoutStatus ''STATUS'' = None"
    by code_simp
  have m2: "''team1 dev-team1-api-7d9-x1'' \<in> set (dataRows listingWithoutStatus)"
    by code_simp
  have c2: "cell ''team1 dev-team1-api-7d9-x1'' (headerIndex listingWithoutStatus ''NAME'') =
     Some ''dev-team1-api-7d9-x1''"
    by code_simp
  have s2: "2 < length (split_on CHR ''-'' ''dev-team1-api-7d9-x1'')"
    by code_simp
  from parseServicesMap_status_filter [OF p2] h2 m2 c2 s2
  have r2: "\<exists>k env d. listingRow listingWithoutStatus None ''team1 dev-team1-api-7d9-x1'' =
        Inr (Some (k, env, d)) \<and>
      entryOf [(''api'', [(''dev'', \<lparr>id' = ''7d9-x1'', namespace = Some ''team1'',
                                    serviceName = ''dev-team1-api''\<rparr>)])] k env \<noteq> None"
    by blast
  from p1 h1 m1 c1 r1 p2 h2 m2 c2 r2 show ?thesis
    by blast
qed

definition listingOfTeam1 :: string where
  "listingOfTeam1 =
     ''NAMESPACE NAME STATUS'' @ CHR 0x0A # ''team1 dev-team1-api-7d9-x1 Running''"

theorem parseServicesMap_namespace_witness:
  "parseServicesMap listingOfTeam1 (Some ''other'') =
     Inr [(''team1-api'', [(''dev'', \<lparr>id' = ''7d9-x1'', namespace = Some ''other'',
                                    serviceName = ''dev-team1-api''\<rparr>)])] \<and>
   entryOf [(''team1-api'', [(''dev'', \<lparr>id' = ''7d9-x1'', namespace = Some ''other'',
                                    serviceName = ''dev-team1-api''\<rparr>)])] ''team1-api'' ''dev'' =
     Some \<lparr>id' = ''7d9-x1'', namespace = Some ''other'', serviceName = ''dev-team1-api''\<rparr> \<and>
   namespace \<lparr>id' = ''7d9-x1'', namespace = Some ''other'', serviceName = ''dev-team1-api''\<rparr> =
     Some ''other'' \<and>
   cell ''team1 dev-team1-api-7d9-x1 Running'' (headerIndex listingOfTeam1 ''NAMESPACE'') =
     Some ''team1'' \<and>
   parseServicesMap listingOfTeam1 None =
     Inr [(''api'', [(''dev'', \<lparr>id' = ''7d9-x1'', namespace = Some ''team1'',
                              serviceName = ''dev-team1-api''\<rparr>)])] \<and>
   (\<exists>line\<in>set (dataRows listingOfTeam1).
      listingRow listingOfTeam1 None line =
        Inr (Some (''api'', ''dev'', \<lparr>id' = ''7d9-x1'', namespace = Some ''team1'',
                                       serviceName = ''dev-team1-api''\<rparr>)) \<and>
      namespace \<lparr>id' = ''7d9-x1'', namespace = Some ''team1'', serviceName = ''dev-team1-api''\<rparr> =
        cell line (headerIndex listingOfTeam1 ''NAMESPACE''))"
proof -
  have p': "parseServicesMap listingOfTeam1 None =
     Inr [(''api'', [(''dev'', \<lparr>id' = ''7d9-x1'', namespace = Some ''team1'',
                              serviceName = ''dev-team1-api''\<rparr>)])]"
    by code_simp
  have e': "entryOf [(''api'', [(''dev'', \<lparr>id' = ''7d9-x1'', namespace = Some ''team1'',
                              serviceName = ''dev-team1-api''\<rparr>)])] ''api'' ''dev'' =
     Some \<lparr>id' = ''7d9-x1'', namespace = Some ''team1'', serviceName = ''dev-team1-api''\<rparr>"
    by code_simp
  from parseServicesMap_namespace [OF p' e']
  have col: "\<exists>line\<in>set (dataRows listingOfTeam1).
      listingRow listingOfTeam1 None line =
        Inr (Some (''api'', ''dev'', \<lparr>id' = ''7d9-x1'', namespace = Some ''team1'',
                                       serviceName = ''dev-team1-api''\<rparr>)) \<and>
      namespace \<lparr>id' = ''7d9-x1'', namespace = Some ''team1'', serviceName = ''dev-team1-api''\<rparr> =
        cell line (headerIndex listingOfTeam1 ''NAMESPACE'')"
    by blast
  have p: "parseServicesMap listingOfTeam1 (Some ''other'') =
     Inr [(''team1-api'', [(''dev'', \<lparr>id' = ''7d9-x1'', namespace = Some ''other'',
                                    serviceName = ''dev-team1-api''\<rparr>)])]"
    by code_simp
  have e: "entryOf [(''team1-api'', [(''dev'', \<lparr>id' = ''7d9-x1'', namespace = Some ''other'',
                                    serviceName = ''dev-team1-api''\<rparr>)])] ''team1-api'' ''dev'' =
     Some \<lparr>id' = ''7d9-x1'', namespace = Some ''other'', serviceName = ''dev-team1-api''\<rparr>"
    by code_simp
  have c: "cell ''team1 dev-team1-api-7d9-x1 Running'' (headerIndex listingOfTeam1 ''NAMESPACE'') =
     Some ''team1''"
    by code_simp
  from parseServicesMap_namespace [OF p e]
  have "namespace \<lparr>id' = ''7d9-x1'', namespace = Some ''other'', serviceName = ''dev-team1-api''\<rparr> =
     Some ''other''"
    by blast
  with p e c p' col show ?thesis
    by blast
qed

section \<open>Ports and prompts of the interactive flow\<close>

text \<open>
  \<open>Number(value)\<close> for a string, following the grammar of numeric string literals: white
  space around the literal is ignored, the empty string is 0, a literal is either
  \<open>0x\<close>, \<open>0o\<close> or \<open>0b\<close> followed by digits of that radix, or an optionally signed
  \<open>Infinity\<close> or decimal literal with optional fraction and exponent; anything else is
  \<open>NaN\<close>. \<open>Finite m e\<close> stands for the exact value \<open>m \<times> 10^e\<close>; the rounding of that
  value to a double is not modelled, so a literal that is not an integer but lies within
  rounding distance of one is not an integer here.
\<close>

datatype js_number = NaN | Infinity bool | Finite int int

definition nonDecimalLiteral :: "nat \<Rightarrow> string \<Rightarrow> js_number" where
  "nonDecimalLiteral R ds =
     (if ds \<noteq> [] \<and> list_all (isRadixDigit R) ds then Finite (int (radixValue R ds)) 0 else NaN)"

definition exponentPart :: "string \<Rightarrow> int option" where
  "exponentPart r =
     (if r = [] then Some 0
      else if hd r = CHR ''e'' \<or> hd r = CHR ''E'' then
        (let r3 = tl r;
             eneg = (r3 \<noteq> [] \<and> hd r3 = CHR ''-'');
             ds = (if r3 \<noteq> [] \<and> (hd r3 = CHR ''+'' \<or> hd r3 = CHR ''-'') then tl r3 else r3)
         in if ds \<noteq> [] \<and> list_all (isRadixDigit 10) ds
            then Some ((if eneg then - 1 else 1) * int (radixValue 10 ds))
            else None)
      else None)"

definition decimalLiteral :: "string \<Rightarrow> js_number" where
  "decimalLiteral s =
     (let neg = (s \<noteq> [] \<and> hd s = CHR ''-'');
          u = (if s \<noteq> [] \<and> (hd s = CHR ''+'' \<or> hd s = CHR ''-'') then tl s else s)
      in if u = ''Infinity'' then Infinity neg
         else
           let ip = takeWhile (isRadixDigit 10) u;
               r1 = dropWhile (isRadixDigit 10) u;
               dot = (r1 \<noteq> [] \<and> hd r1 = CHR ''.'');
               fp = (if dot then takeWhile (isRadixDigit 10) (tl r1) else []);
               r2 = (if dot then dropWhile (isRadixDigit 10) (tl r1) else r1)
           in if ip = [] \<and> fp = [] then NaN
              else (case exponentPart r2 of
                      None \<Rightarrow> NaN
                    | Some e \<Rightarrow>
                        Finite ((if neg then - 1 else 1) * int (radixValue 10 (ip @ fp)))
                          (e - int (length fp))))"

definition js_Number :: "string \<Rightarrow> js_number" where
  "js_Number input =
     (let s = trim input in
      if s = [] then Finite 0 0
      else if take 2 s = ''0x'' \<or> take 2 s = ''0X'' then nonDecimalLiteral 16 (drop 2 s)
      else if take 2 s = ''0o'' \<or> take 2 s = ''0O'' then nonDecimalLiteral 8 (drop 2 s)
      else if take 2 s = ''0b'' \<or> take 2 s = ''0B'' then nonDecimalLiteral 2 (drop 2 s)
      else decimalLiteral s)"

text \<open>\<open>Number.isInteger(n)\<close>, with the integer when it holds.\<close>

fun integerValue :: "js_number \<Rightarrow> int option" where
  "integerValue (Finite m e) =
     (if 0 \<le> e then Some (m * 10 ^ nat e)
      else if m mod 10 ^ nat (- e) = 0 then Some (m div 10 ^ nat (- e))
      else None)"
| "integerValue NaN = None"
| "integerValue (Infinity neg) = None"

definition isValidPort :: "string \<Rightarrow> bool" where
  "isValidPort v =
     (case integerValue (js_Number v) of
        Some n \<Rightarrow> 0 < n \<and> n \<le> 65535
      | None \<Rightarrow> False)"

text \<open>\<open>prompt\<close> resolves to the typed line, trimmed. The question itself is written by
  the line reader and is not part of the recorded output.\<close>

definition prompt :: "string \<Rightarrow> string" where
  "prompt answer = trim answer"

text \<open>
  The namespace prompt (lines 444 to 454 of the script). \<open>parseInt(nsAnswer) || 0\<close> turns
  both \<open>NaN\<close> and 0 into 0, so the \<open>isNaN\<close> test of the guard never holds.
\<close>

datatype ns_selection = NsInvalid | NsSelected "string option"

definition selectNamespace :: "string list \<Rightarrow> string \<Rightarrow> ns_selection" where
  "selectNamespace namespaces nsAnswer =
     (let nsIndex = (case parseInt nsAnswer 0 of None \<Rightarrow> 0 | Some n \<Rightarrow> n)
      in if nsIndex < 0 \<or> int (length namespaces) < nsIndex then NsInvalid
         else NsSelected (if 0 < nsIndex then Some (namespaces ! nat (nsIndex - 1)) else None))"

text \<open>The service prompt (lines 486 to 498).\<close>

datatype svc_selection = SvcInvalid | SvcSelected "string list"

definition selectServices :: "string list \<Rightarrow> string \<Rightarrow> svc_selection" where
  "selectServices servicesList serviceAnswer =
     (case parseMultiSelect serviceAnswer (int (length servicesList)) of
        None \<Rightarrow> SvcInvalid
      | Some selectedNumbers \<Rightarrow>
          if selectedNumbers = [] then SvcInvalid
          else SvcSelected (map (\<lambda>n. servicesList ! nat (n - 1)) selectedNumbers))"

text \<open>The environment prompt (lines 529 to 538): \<open>Number.parseInt(envAnswer, 10) || 1\<close>
  turns both \<open>NaN\<close> and 0 into 1; an index out of range skips the service.\<close>

datatype env_selection = EnvSkipped | EnvSelected string

definition selectEnvironment :: "string list \<Rightarrow> string \<Rightarrow> env_selection" where
  "selectEnvironment availableEnvs envAnswer =
     (let envChoice = (case parseInt envAnswer 10 of
                         None \<Rightarrow> 1
                       | Some n \<Rightarrow> if n = 0 then 1 else n)
      in if envChoice < 1 \<or> int (length availableEnvs) < envChoice then EnvSkipped
         else EnvSelected (availableEnvs ! nat (envChoice - 1)))"

subsection \<open>The three indexed prompts compared\<close>

lemma parseMultiSelect_invalid:
  "parseMultiSelect input mx = None \<longleftrightarrow>
     trim input \<noteq> [] \<and>
     (\<exists>p\<in>set (selectionParts (trim input)).
        case parseInt p 10 of None \<Rightarrow> True | Some n \<Rightarrow> n < 1 \<or> mx < n)"
  by (simp add: parseMultiSelect_def Let_def selectLoop_None)

lemma parseMultiSelect_empty: "trim input = [] \<Longrightarrow> parseMultiSelect input mx = Some []"
  by (simp add: parseMultiSelect_def Let_def)

text \<open>
  Claim C2, as the code has it. Each indexed prompt reads the typed answer with
  \<open>parseInt\<close> and checks the index against its own maximum, and an index above the
  maximum or below zero is rejected by each of them: the namespace prompt and the service
  prompt give up the selection, the environment prompt skips the service. They differ
  otherwise. The service prompt also rejects an empty answer, the index 0 and a piece
  with no leading integer; the environment prompt takes an answer with no leading integer,
  or the index 0, as its default, the first environment; the namespace prompt takes an
  empty answer or the index 0 as its default, all namespaces.
\<close>

theorem indexed_prompts_compared:
  "(\<forall>n. parseInt a 0 = Some n \<and> (n < 0 \<or> int (length namespaces) < n) \<longrightarrow>
        selectNamespace namespaces a = NsInvalid) \<and>
   (\<forall>n. parseInt a 10 = Some n \<and> (n < 0 \<or> int (length availableEnvs) < n) \<longrightarrow>
        selectEnvironment availableEnvs a = EnvSkipped) \<and>
   ((\<exists>p\<in>set (selectionParts (trim a)).
        case parseInt p 10 of None \<Rightarrow> True | Some n \<Rightarrow> n < 1 \<or> int (length servicesList) < n) \<longrightarrow>
        selectServices servicesList a = SvcInvalid) \<and>
   (trim a = [] \<longrightarrow> selectServices servicesList a = SvcInvalid) \<and>
   ((parseInt a 10 = None \<or> parseInt a 10 = Some 0) \<and> availableEnvs \<noteq> [] \<longrightarrow>
        selectEnvironment availableEnvs a = EnvSelected (availableEnvs ! 0)) \<and>
   ((a = [] \<or> parseInt a 0 = Some 0) \<longrightarrow> selectNamespace namespaces a = NsSelected None)"
proof -
  have ns: "selectNamespace namespaces a = NsInvalid"
    if "parseInt a 0 = Some n \<and> (n < 0 \<or> int (length namespaces) < n)" for n
    using that by (auto simp: selectNamespace_def)
  have env: "selectEnvironment availableEnvs a = EnvSkipped"
    if "parseInt a 10 = Some n \<and> (n < 0 \<or> int (length availableEnvs) < n)" for n
    using that by (auto simp: selectEnvironment_def)
  have svc: "selectServices servicesList a = SvcInvalid"
    if "\<exists>p\<in>set (selectionParts (trim a)).
        case parseInt p 10 of None \<Rightarrow> True | Some n \<Rightarrow> n < 1 \<or> int (length servicesList) < n"
  proof -
    from that have "trim a \<noteq> []"
      by (auto simp: selectionParts_Nil)
    with that have "parseMultiSelect a (int (length servicesList)) = None"
      by (simp only: parseMultiSelect_invalid) blast
    then show ?thesis
      by (simp add: selectServices_def)
  qed
  have svc_empty: "selectServices servicesList a = SvcInvalid" if "trim a = []"
    using parseMultiSelect_empty [OF that] by (simp add: selectServices_def)
  have env_default: "selectEnvironment availableEnvs a = EnvSelected (availableEnvs ! 0)"
    if "(parseInt a 10 = None \<or> parseInt a 10 = Some 0) \<and> availableEnvs \<noteq> []"
  proof -
    from that have "1 \<le> length availableEnvs"
      by (cases availableEnvs) simp_all
    with that show ?thesis
      by (auto simp: selectEnvironment_def)
  qed
  have "parseInt [] 0 = None"
    by (simp add: parseInt_def trimStart_def)
  then have ns_default: "selectNamespace namespaces a = NsSelected None"
    if "a = [] \<or> parseInt a 0 = Some 0"
    using that by (auto simp: selectNamespace_def)
  from ns env svc svc_empty env_default ns_default show ?thesis
    by blast
qed

theorem indexed_prompts_compared_witness:
  "parseInt ''7'' 0 = Some 7 \<and> parseInt ''7'' 10 = Some 7 \<and>
   selectNamespace [''team1'', ''team2''] ''7'' = NsInvalid \<and>
   selectEnvironment [''dev'', ''qa''] ''7'' = EnvSkipped \<and>
   selectServices [''api'', ''web''] ''7'' = SvcInvalid \<and>
   trim [] = [] \<and> parseInt [] 10 = None \<and>
   selectServices [''api'', ''web''] [] = SvcInvalid \<and>
   selectEnvironment [''dev'', ''qa''] [] = EnvSelected ''dev'' \<and>
   selectNamespace [''team1'', ''team2''] [] = NsSelected None"
proof -
  have a: "parseInt ''7'' 0 = Some 7" and b: "parseInt ''7'' 10 = Some 7"
    by code_simp+
  have c: "\<exists>p\<in>set (selectionParts (trim ''7'')).
        case parseInt p 10 of None \<Rightarrow> True | Some n \<Rightarrow> n < 1 \<or> int (length [''api'', ''web'']) < n"
    by code_simp
  have d: "trim [] = []" and e: "parseInt [] 10 = None"
    by code_simp+
  note seven = indexed_prompts_compared [of "''7''" "[''team1'', ''team2'']" "[''dev'', ''qa'']"
      "[''api'', ''web'']"]
  note empty = indexed_prompts_compared [of "[]" "[''team1'', ''team2'']" "[''dev'', ''qa'']"
      "[''api'', ''web'']"]
  from seven a have "selectNamespace [''team1'', ''team2''] ''7'' = NsInvalid"
    by simp
  moreover from seven b have "selectEnvironment [''dev'', ''qa''] ''7'' = EnvSkipped"
    by simp
  moreover from seven c have "selectServices [''api'', ''web''] ''7'' = SvcInvalid"
    by blast
  moreover from empty d have "selectServices [''api'', ''web''] [] = SvcInvalid"
    by blast
  moreover from empty e have "selectEnvironment [''dev'', ''qa''] [] = EnvSelected ''dev''"
    by simp
  moreover from empty have "selectNamespace [''team1'', ''team2''] [] = NsSelected None"
    by blast
  ultimately show ?thesis
    using a b d e by blast
qed

text \<open>
  Claim C2 as it is worded fails on the code: \<open>abc\<close> is not an integer and \<open>0\<close> is no
  index of a list, the service prompt rejects both, yet the environment prompt answers
  both with the first environment and the namespace prompt answers \<open>0\<close> with all
  namespaces.
\<close>

theorem indexed_prompts_differ_counterexample:
  "parseInt ''abc'' 10 = None \<and>
   selectServices [''api'', ''web''] ''abc'' = SvcInvalid \<and>
   selectEnvironment [''dev'', ''qa''] ''abc'' = EnvSelected ''dev'' \<and>
   selectServices [''api'', ''web''] ''0'' = SvcInvalid \<and>
   selectEnvironment [''dev'', ''qa''] ''0'' = EnvSelected ''dev'' \<and>
   selectNamespace [''team1'', ''team2''] ''0'' = NsSelected None"
  by code_simp

section \<open>The configuration loop of \<open>main\<close>\<close>

text \<open>
  What the script prints while it configures the sessions, and how an awaited step can
  end: the line reader never answers because the input has run out (\<open>Waiting\<close>), an
  exception propagates to the \<open>catch\<close> of \<open>main\<close> (\<open>Raised\<close>), or the step returns.
\<close>

datatype out_event =
    Print string string
  | ConsoleError string
  | SpinnerStart string
  | SpinnerStop

datatype 'a outcome = Waiting | Raised js_error | Returned 'a

text \<open>\<open>execPromise\<close>, from what \<open>exec\<close> hands to its callback: the error (its message)
  if any, the standard output and the standard error.\<close>

definition execPromise :: "string option \<times> string \<times> string \<Rightarrow> js_error + string" where
  "execPromise r =
     (case r of (error, stdout, stderr) \<Rightarrow>
        (case error of
           Some msg \<Rightarrow> Inl (Rejected msg)
         | None \<Rightarrow> if stderr \<noteq> [] then Inl (Rejected stderr) else Inr stdout))"

text \<open>A value inside a template literal: \<open>undefined\<close> is spelled out, an error shows its
  name and message.\<close>

definition templateText :: "string option \<Rightarrow> string" where
  "templateText v = (case v of None \<Rightarrow> ''undefined'' | Some s \<Rightarrow> s)"

definition errorText :: "js_error \<Rightarrow> string" where
  "errorText e =
     (case e of
        TypeError m \<Rightarrow> ''TypeError: '' @ m
      | Rejected m \<Rightarrow> (if m = [] then ''Error'' else ''Error: '' @ m)
      | UnmodelledPattern p \<Rightarrow> ''SyntaxError: '' @ p)"

definition getServicePortCommand :: "string option \<Rightarrow> string \<Rightarrow> string" where
  "getServicePortCommand serviceNamespace svcName =
     ''kubectl get service --namespace '' @ templateText serviceNamespace @ '' '' @ svcName @
     '' -o jsonpath={.spec.ports[*].port}''"

text \<open>
  \<open>getServicePort\<close>, with the shell \<open>sh\<close> that answers a command. The \<open>try\<close> holds the one
  call that can reject, and the \<open>catch\<close> returns the literal \<open>3000\<close>; the result is a sum
  so that a caller can tell a return from a propagated exception.
\<close>

definition getServicePort ::
  "(string \<Rightarrow> string option \<times> string \<times> string) \<Rightarrow> string option \<Rightarrow> string \<Rightarrow>
     out_event list \<times> (js_error + string)" where
  "getServicePort sh serviceNamespace svcName =
     (let cmd = getServicePortCommand serviceNamespace svcName;
          started = [Print c_green (CHR 0x0A # ''> '' @ cmd),
                     SpinnerStart ''Detecting port on the Kubernetes service'']
      in case execPromise (sh cmd) of
           Inr servicePortDetected \<Rightarrow>
             (started @ [SpinnerStop,
                Print c_cyan (''Port detected: '' @ servicePortDetected @ [CHR 0x0A])],
              Inr servicePortDetected)
         | Inl error \<Rightarrow>
             (started @ [SpinnerStop, ConsoleError (''Error detecting port: '' @ errorText error)],
              Inr ''3000''))"

record session_config =
  selectedService :: string
  environment :: string
  envLabel :: string
  serviceId :: string
  serviceName :: string
  serviceNamespace :: "string option"
  localPort :: string
  servicePort :: string
  showLogs :: bool

text \<open>\<open>toLowerCase\<close> on the code units below 256.\<close>

definition toLower :: "char \<Rightarrow> char" where
  "toLower c =
     (let n = (of_char c :: nat)
      in if (65 \<le> n \<and> n \<le> 90) \<or> (192 \<le> n \<and> n \<le> 222 \<and> n \<noteq> 215) then char_of (n + 32) else c)"

text \<open>
  The \<open>while (true)\<close> loop of the local-port prompt (lines 555 to 576): one typed line per
  round. It returns the accepted port and the lines left; with no line left the prompt is
  never answered.
\<close>

fun localPortLoop ::
  "string \<Rightarrow> string list \<Rightarrow> string list \<Rightarrow> out_event list \<times> (string \<times> string list) option" where
  "localPortLoop suggestedLocalPort reservedLocalPorts [] = ([], None)"
| "localPortLoop suggestedLocalPort reservedLocalPorts (answer # answers) =
     (let localPortAnswer = prompt answer;
          port = (if localPortAnswer = [] then suggestedLocalPort else localPortAnswer)
      in if \<not> isValidPort port then
           (case localPortLoop suggestedLocalPort reservedLocalPorts answers of
              (out, r) \<Rightarrow>
                (Print c_red ''Invalid port. Enter a number between 1 and 65535.'' # out, r))
         else if port \<in> set reservedLocalPorts then
           (case localPortLoop suggestedLocalPort reservedLocalPorts answers of
              (out, r) \<Rightarrow>
                (Print c_red (''Port '' @ port @
                   '' is already used by another selection. Choose another.'') # out, r))
         else ([], Some (port, answers)))"

text \<open>
  The rest of the loop body once the local port is chosen (lines 578 to 616): port
  detection, the destination-port prompt, the logs prompt, and the finished configuration.
\<close>

definition finishConfig ::
  "(string \<Rightarrow> string option \<times> string \<times> string) \<Rightarrow> string option \<Rightarrow> string \<Rightarrow> string \<Rightarrow>
     service_details \<Rightarrow> string \<Rightarrow> string list \<Rightarrow>
     out_event list \<times> (session_config \<times> string list) outcome" where
  "finishConfig sh namespaceArg svc env details port answers =
     (let svcNamespace = (case namespaceArg of Some ns \<Rightarrow> Some ns | None \<Rightarrow> namespace details);
          label = (if env \<noteq> ''default'' then env @ ''~'' else [])
      in case getServicePort sh svcNamespace (service_details.serviceName details) of
           (out1, Inl e) \<Rightarrow> (out1, Raised e)
         | (out1, Inr servicePortDetected) \<Rightarrow>
             (case answers of
                [] \<Rightarrow> (out1, Waiting)
              | a1 # rest1 \<Rightarrow>
                  let servicePortAnswer = prompt a1;
                      svcPort = (if servicePortAnswer = [] then servicePortDetected
                                 else servicePortAnswer);
                      out2 = (if \<not> isValidPort svcPort
                              then [Print c_red (''Invalid destination port for '' @ svc @
                                      ''. Using detected/default: '' @ servicePortDetected)]
                              else [])
                  in case rest1 of
                       [] \<Rightarrow> (out1 @ out2, Waiting)
                     | a2 # rest2 \<Rightarrow>
                         let logsAnswer = prompt a2;
                             lowered = map toLower logsAnswer;
                             logsChoice = trim (if lowered = [] then ''y'' else lowered)
                         in (out1 @ out2,
                             Returned
                               (\<lparr>selectedService = svc, environment = env, envLabel = label,
                                 serviceId = id' details,
                                 serviceName = service_details.serviceName details,
                                 serviceNamespace = svcNamespace,
                                 localPort = port,
                                 servicePort = (if servicePortAnswer \<noteq> [] then svcPort
                                                else servicePortDetected),
                                 showLogs = (logsChoice = ''y'' \<or> logsChoice = ''yes'' \<or>
                                             logsChoice = [])\<rparr>,
                                rest2))))"

text \<open>
  One round of the loop over the selected services (lines 510 to 617). It returns the
  configuration pushed, if any, the reserved ports and the typed lines left.
\<close>

definition configureService ::
  "(string \<Rightarrow> string option \<times> string \<times> string) \<Rightarrow> catalog \<Rightarrow> string option \<Rightarrow> string \<Rightarrow>
     string list \<Rightarrow> string list \<Rightarrow>
     out_event list \<times> (session_config option \<times> string list \<times> string list) outcome" where
  "configureService sh servicesMap namespaceArg svc reservedLocalPorts answers =
     (let envs = (case map_of servicesMap svc of Some e \<Rightarrow> e | None \<Rightarrow> []);
          availableEnvs = map fst envs;
          out0 = [Print c_magenta (CHR 0x0A # ''--- '' @ svc @ '' ---'')]
      in if availableEnvs = [] then
           (out0 @ [Print c_red (''No environments found for '' @ svc @ ''. Skipping.'')],
            Returned (None, reservedLocalPorts, answers))
         else
           let out1 = out0 @ Print c_magenta ''Environments:'' #
                 map (\<lambda>(index, env). Print c_green (''['' @ String_of (index + 1) @ ''] '' @ env))
                   (enumerate 0 availableEnvs)
           in case answers of
                [] \<Rightarrow> (out1, Waiting)
              | a # rest \<Rightarrow>
                  (case selectEnvironment availableEnvs (prompt a) of
                     EnvSkipped \<Rightarrow>
                       (out1 @ [Print c_red (''Invalid environment selection for '' @ svc @
                                  ''. Skipping.'')],
                        Returned (None, reservedLocalPorts, rest))
                   | EnvSelected env \<Rightarrow>
                       (case map_of envs env of
                          None \<Rightarrow>
                            (out1 @ [Print c_red (''The selected environment '' @ CHR 0x22 # env @
                                       CHR 0x22 # '' does not exist for '' @ CHR 0x22 # svc @
                                       CHR 0x22 # ''. Skipping.'')],
                             Returned (None, reservedLocalPorts, rest))
                        | Some details \<Rightarrow>
                            (case localPortLoop (nextAvailablePort 3000 reservedLocalPorts)
                                    reservedLocalPorts rest of
                               (out2, None) \<Rightarrow> (out1 @ out2, Waiting)
                             | (out2, Some (port, rest2)) \<Rightarrow>
                                 (case finishConfig sh namespaceArg svc env details port rest2 of
                                    (out3, Waiting) \<Rightarrow> (out1 @ out2 @ out3, Waiting)
                                  | (out3, Raised e) \<Rightarrow> (out1 @ out2 @ out3, Raised e)
                                  | (out3, Returned (cfg, rest3)) \<Rightarrow>
                                      (out1 @ out2 @ out3,
                                       Returned (Some cfg, set_add port reservedLocalPorts,
                                         rest3)))))))"

text \<open>The loop itself, with \<open>selectedConfigs\<close> and \<open>reservedLocalPorts\<close> as its state.\<close>

fun configureAll ::
  "(string \<Rightarrow> string option \<times> string \<times> string) \<Rightarrow> catalog \<Rightarrow> string option \<Rightarrow> string list \<Rightarrow>
     session_config list \<Rightarrow> string list \<Rightarrow> string list \<Rightarrow>
     out_event list \<times> (session_config list \<times> string list \<times> string list) outcome" where
  "configureAll sh servicesMap namespaceArg [] selectedConfigs reservedLocalPorts answers =
     ([], Returned (selectedConfigs, reservedLocalPorts, answers))"
| "configureAll sh servicesMap namespaceArg (svc # svcs) selectedConfigs reservedLocalPorts answers =
     (case configureService sh servicesMap namespaceArg svc reservedLocalPorts answers of
        (out, Waiting) \<Rightarrow> (out, Waiting)
      | (out, Raised e) \<Rightarrow> (out, Raised e)
      | (out, Returned (cfg, reserved', answers')) \<Rightarrow>
          (case configureAll sh servicesMap namespaceArg svcs
                  (selectedConfigs @ (case cfg of None \<Rightarrow> [] | Some c \<Rightarrow> [c])) reserved' answers' of
             (out', r) \<Rightarrow> (out @ out', r)))"

text \<open>The arguments of the tunnel process (lines 651 to 658).\<close>

definition portForwardArgs :: "session_config \<Rightarrow> string option list" where
  "portForwardArgs cfg =
     [Some ''port-forward'', Some ''--namespace'', serviceNamespace cfg,
      Some (session_config.serviceName cfg @ ''-'' @ serviceId cfg),
      Some (localPort cfg @ '':'' @ servicePort cfg)]"

text \<open>The port number a port string stands for, as \<open>isValidPort\<close> reads it.\<close>

definition portNumber :: "string \<Rightarrow> int option" where
  "portNumber v = integerValue (js_Number v)"

subsection \<open>Properties of the configuration loop\<close>

lemma getServicePort_returns: "\<exists>detected. snd (getServicePort sh ns nm) = Inr detected"
  by (simp add: getServicePort_def Let_def split: sum.splits)

lemma getServicePort_rejected:
  "execPromise (sh (getServicePortCommand ns nm)) = Inl error \<Longrightarrow>
     snd (getServicePort sh ns nm) = Inr ''3000''"
  by (simp add: getServicePort_def Let_def)

lemma finishConfig_two_answers:
  assumes "snd (getServicePort sh
             (case namespaceArg of Some n \<Rightarrow> Some n | None \<Rightarrow> namespace details)
             (service_details.serviceName details)) = Inr detected"
  shows "\<exists>cfg. finishConfig sh namespaceArg svc env details port (a1 # a2 # rest) =
           (fst (getServicePort sh
                   (case namespaceArg of Some n \<Rightarrow> Some n | None \<Rightarrow> namespace details)
                   (service_details.serviceName details)) @
            (if isValidPort (if prompt a1 = [] then detected else prompt a1) then []
             else [Print c_red (''Invalid destination port for '' @ svc @
                     ''. Using detected/default: '' @ detected)]),
            Returned (cfg, rest)) \<and>
         servicePort cfg = (if prompt a1 = [] then detected else prompt a1) \<and>
         localPort cfg = port"
proof -
  obtain out1 where g: "getServicePort sh
             (case namespaceArg of Some n \<Rightarrow> Some n | None \<Rightarrow> namespace details)
             (service_details.serviceName details) = (out1, Inr detected)"
    using assms
    by (cases "getServicePort sh
             (case namespaceArg of Some n \<Rightarrow> Some n | None \<Rightarrow> namespace details)
             (service_details.serviceName details)") simp
  show ?thesis
    by (simp add: finishConfig_def g Let_def)
qed

text \<open>
  Claim C8. Whenever the port-detection command fails (\<open>exec\<close> reports an error or
  standard error is not empty), \<open>getServicePort\<close> returns the literal \<open>3000\<close> and raises
  nothing; and the loop body that called it goes on: given the two typed lines it still
  waits for, it returns the finished configuration, whose destination port is the typed
  one or, for an empty answer, that default.
\<close>

theorem getServicePort_failure_recovered:
  assumes "execPromise (sh (getServicePortCommand ns nm)) = Inl error"
  shows "snd (getServicePort sh ns nm) = Inr ''3000'' \<and>
         (\<forall>namespaceArg details svc env port a1 a2 rest.
            (case namespaceArg of Some n \<Rightarrow> Some n | None \<Rightarrow> namespace details) = ns \<and>
            service_details.serviceName details = nm \<longrightarrow>
            (\<exists>out cfg.
               finishConfig sh namespaceArg svc env details port (a1 # a2 # rest) =
                 (out, Returned (cfg, rest)) \<and>
               servicePort cfg = (if prompt a1 = [] then ''3000'' else prompt a1)))"
proof -
  have ret: "snd (getServicePort sh ns nm) = Inr ''3000''"
    using assms by (rule getServicePort_rejected)
  have "\<exists>out cfg.
          finishConfig sh namespaceArg svc env details port (a1 # a2 # rest) =
            (out, Returned (cfg, rest)) \<and>
          servicePort cfg = (if prompt a1 = [] then ''3000'' else prompt a1)"
    if "(case namespaceArg of Some n \<Rightarrow> Some n | None \<Rightarrow> namespace details) = ns \<and>
        service_details.serviceName details = nm"
    for namespaceArg details svc env port a1 a2 rest
  proof -
    from that ret have "snd (getServicePort sh
             (case namespaceArg of Some n \<Rightarrow> Some n | None \<Rightarrow> namespace details)
             (service_details.serviceName details)) = Inr ''3000''"
      by simp
    from finishConfig_two_answers [OF this, of svc env port a1 a2 rest] show ?thesis
      by blast
  qed
  with ret show ?thesis
    by blast
qed

text \<open>
  Claim C10. For every non-empty answer at the destination-port prompt (the typed line as
  \<open>prompt\<close> resolves it, that is, trimmed), the finished configuration stores that answer
  as its \<open>servicePort\<close> and the tunnel arguments end with \<open>localPort:answer\<close>, also when
  the answer fails \<open>isValidPort\<close>: then the step prints, after the output of the port
  detection, only the message that names the detected or default port.
\<close>

theorem typed_destination_port_kept:
  assumes "prompt a1 \<noteq> []"
  shows "\<exists>detected cfg.
           snd (getServicePort sh
                  (case namespaceArg of Some n \<Rightarrow> Some n | None \<Rightarrow> namespace details)
                  (service_details.serviceName details)) = Inr detected \<and>
           finishConfig sh namespaceArg svc env details port (a1 # a2 # rest) =
             (fst (getServicePort sh
                     (case namespaceArg of Some n \<Rightarrow> Some n | None \<Rightarrow> namespace details)
                     (service_details.serviceName details)) @
              (if isValidPort (prompt a1) then []
               else [Print c_red (''Invalid destination port for '' @ svc @
                       ''. Using detected/default: '' @ detected)]),
              Returned (cfg, rest)) \<and>
           servicePort cfg = prompt a1 \<and>
           portForwardArgs cfg ! 4 = Some (port @ '':'' @ prompt a1)"
proof -
  obtain detected where d: "snd (getServicePort sh
             (case namespaceArg of Some n \<Rightarrow> Some n | None \<Rightarrow> namespace details)
             (service_details.serviceName details)) = Inr detected"
    using getServicePort_returns by blast
  from finishConfig_two_answers [OF d, of svc env port a1 a2 rest] assms
  obtain cfg where "finishConfig sh namespaceArg svc env details port (a1 # a2 # rest) =
             (fst (getServicePort sh
                     (case namespaceArg of Some n \<Rightarrow> Some n | None \<Rightarrow> namespace details)
                     (service_details.serviceName details)) @
              (if isValidPort (prompt a1) then []
               else [Print c_red (''Invalid destination port for '' @ svc @
                       ''. Using detected/default: '' @ detected)]),
              Returned (cfg, rest))"
    and "servicePort cfg = prompt a1" and "localPort cfg = port"
    by auto
  with d show ?thesis
    by (auto simp: portForwardArgs_def)
qed

definition apiDetails :: service_details where
  "apiDetails = \<lparr>id' = ''7d9-x1'', namespace = Some ''team1'', serviceName = ''dev-api''\<rparr>"

definition webDetails :: service_details where
  "webDetails = \<lparr>id' = ''5c4-k2'', namespace = Some ''team1'', serviceName = ''dev-web''\<rparr>"

definition exampleCatalog :: catalog where
  "exampleCatalog = [(''api'', [(''dev'', apiDetails)]), (''web'', [(''dev'', webDetails)])]"

definition exampleShell :: "string \<Rightarrow> string option \<times> string \<times> string" where
  "exampleShell cmd = (None, ''80'', [])"

definition failingShell :: "string \<Rightarrow> string option \<times> string \<times> string" where
  "failingShell cmd = (Some ''Command failed'', [], [])"

theorem getServicePort_failure_recovered_witness:
  "execPromise (failingShell (getServicePortCommand (Some ''team1'') ''dev-api'')) =
     Inl (Rejected ''Command failed'') \<and>
   snd (getServicePort failingShell (Some ''team1'') ''dev-api'') = Inr ''3000'' \<and>
   (\<exists>out cfg.
      finishConfig failingShell None ''api'' ''dev'' apiDetails ''3000'' [[], []] =
        (out, Returned (cfg, [])) \<and>
      servicePort cfg = ''3000'')"
proof -
  have f: "execPromise (failingShell (getServicePortCommand (Some ''team1'') ''dev-api'')) =
     Inl (Rejected ''Command failed'')"
    by (simp add: execPromise_def failingShell_def)
  note t = getServicePort_failure_recovered [where sh = failingShell and ns = "Some ''team1''"
      and nm = "''dev-api''" and error = "Rejected ''Command failed''", OF f]
  from t have a: "snd (getServicePort failingShell (Some ''team1'') ''dev-api'') = Inr ''3000''"
    by blast
  have cond: "(case None of Some n \<Rightarrow> Some n | None \<Rightarrow> namespace apiDetails) = Some ''team1'' \<and>
      service_details.serviceName apiDetails = ''dev-api''"
    by (simp add: apiDetails_def)
  have p: "prompt [] = []"
    by (simp add: prompt_def trim_Nil)
  from t cond have "\<exists>out cfg.
      finishConfig failingShell None ''api'' ''dev'' apiDetails ''3000'' [[], []] =
        (out, Returned (cfg, [])) \<and>
      servicePort cfg = (if prompt [] = [] then ''3000'' else prompt [])"
    by blast
  with p f a show ?thesis
    by simp
qed

theorem typed_destination_port_kept_witness:
  "prompt ''8x'' \<noteq> [] \<and> \<not> isValidPort (prompt ''8x'') \<and>
   (\<exists>cfg.
      finishConfig exampleShell None ''web'' ''dev'' webDetails ''3001'' [''8x'', ''n''] =
        (fst (getServicePort exampleShell (Some ''team1'') ''dev-web'') @
         [Print c_red ''Invalid destination port for web. Using detected/default: 80''],
         Returned (cfg, [])) \<and>
      servicePort cfg = ''8x'' \<and>
      portForwardArgs cfg ! 4 = Some ''3001:8x'')"
proof -
  have p: "prompt ''8x'' = ''8x''"
    by code_simp
  then have ne: "prompt ''8x'' \<noteq> []"
    by simp
  have inv: "\<not> isValidPort ''8x''"
    by code_simp
  have d: "snd (getServicePort exampleShell (Some ''team1'') ''dev-web'') = Inr ''80''"
    by (simp add: getServicePort_def execPromise_def exampleShell_def Let_def)
  have ns: "(case None of Some n \<Rightarrow> Some n | None \<Rightarrow> namespace webDetails) = Some ''team1''"
    and nm: "service_details.serviceName webDetails = ''dev-web''"
    by (simp_all add: webDetails_def)
  from typed_destination_port_kept [OF ne, where sh = exampleShell and namespaceArg = None
      and details = webDetails and svc = "''web''" and env = "''dev''" and port = "''3001''"
      and ?a2.0 = "''n''" and rest = "[]"]
  obtain detected cfg where
    "snd (getServicePort exampleShell (Some ''team1'') ''dev-web'') = Inr detected"
    and "finishConfig exampleShell None ''web'' ''dev'' webDetails ''3001'' [''8x'', ''n''] =
        (fst (getServicePort exampleShell (Some ''team1'') ''dev-web'') @
         (if isValidPort ''8x'' then []
          else [Print c_red (''Invalid destination port for '' @ ''web'' @
                  ''. Using detected/default: '' @ detected)]),
         Returned (cfg, []))"
    and "servicePort cfg = ''8x''"
    and "portForwardArgs cfg ! 4 = Some (''3001'' @ '':'' @ ''8x'')"
    unfolding ns nm p by blast
  with d inv p show ?thesis
    by auto
qed

subsection \<open>Local ports across the loop\<close>

lemma localPortLoop_accepts:
  "localPortLoop suggested reserved answers = (out, Some (port, rest)) \<Longrightarrow>
     isValidPort port \<and> port \<notin> set reserved"
proof (induction answers arbitrary: out)
  case Nil
  then show ?case by simp
next
  case (Cons a answers)
  then show ?case
    by (auto simp: Let_def split: if_splits prod.splits)
qed

lemma finishConfig_localPort:
  "finishConfig sh namespaceArg svc env details port answers = (out, Returned (cfg, rest)) \<Longrightarrow>
     localPort cfg = port"
  by (auto simp: finishConfig_def Let_def split: prod.splits sum.splits list.splits)

lemma configureService_reserves:
  assumes "configureService sh servicesMap namespaceArg svc reserved answers =
             (out, Returned (cfg, reserved', answers'))"
  shows "(cfg = None \<and> reserved' = reserved) \<or>
         (\<exists>c. cfg = Some c \<and> isValidPort (localPort c) \<and> localPort c \<notin> set reserved \<and>
            reserved' = reserved @ [localPort c])"
proof (cases cfg)
  case None
  with assms have "reserved' = reserved"
    by (simp add: configureService_def Let_def
        split: if_splits list.splits env_selection.splits option.splits prod.splits
          outcome.splits)
  with None show ?thesis by simp
next
  case (Some c)
  with assms obtain suggested rest out2 port rest2 env details out3 where
    loop: "localPortLoop suggested reserved rest = (out2, Some (port, rest2))"
    and fin: "finishConfig sh namespaceArg svc env details port rest2 =
                (out3, Returned (c, answers'))"
    and res: "reserved' = set_add port reserved"
    by (simp add: configureService_def Let_def
        split: if_splits list.splits env_selection.splits option.splits prod.splits
          outcome.splits)
  from localPortLoop_accepts [OF loop] have ok: "isValidPort port" "port \<notin> set reserved"
    by simp_all
  from finishConfig_localPort [OF fin] have "localPort c = port" .
  with ok res Some show ?thesis
    by (simp add: set_add_def)
qed

text \<open>
  What the loop does guarantee: the \<open>localPort\<close> strings of the finished configurations
  are pairwise different, each passes \<open>isValidPort\<close>, and each is in the reserved set.
\<close>

lemma configureAll_localPort_strings:
  "configureAll sh servicesMap namespaceArg svcs cfgs reserved answers =
     (out, Returned (cfgs', reserved', answers')) \<Longrightarrow>
   distinct (map localPort cfgs) \<Longrightarrow> set (map localPort cfgs) \<subseteq> set reserved \<Longrightarrow>
   \<forall>c\<in>set cfgs. isValidPort (localPort c) \<Longrightarrow>
     distinct (map localPort cfgs') \<and> set (map localPort cfgs') \<subseteq> set reserved' \<and>
     (\<forall>c\<in>set cfgs'. isValidPort (localPort c))"
proof (induction svcs arbitrary: cfgs reserved answers out)
  case Nil
  then show ?case by simp
next
  case (Cons svc svcs)
  from Cons.prems(1) obtain out1 cfg reserved1 answers1 out2 where
    step: "configureService sh servicesMap namespaceArg svc reserved answers =
             (out1, Returned (cfg, reserved1, answers1))"
    and rest: "configureAll sh servicesMap namespaceArg svcs
                 (cfgs @ (case cfg of None \<Rightarrow> [] | Some c \<Rightarrow> [c])) reserved1 answers1 =
               (out2, Returned (cfgs', reserved', answers'))"
    by (auto split: prod.splits outcome.splits)
  from configureService_reserves [OF step] Cons.prems(2-4)
  have "distinct (map localPort (cfgs @ (case cfg of None \<Rightarrow> [] | Some c \<Rightarrow> [c]))) \<and>
      set (map localPort (cfgs @ (case cfg of None \<Rightarrow> [] | Some c \<Rightarrow> [c]))) \<subseteq> set reserved1 \<and>
      (\<forall>c\<in>set (cfgs @ (case cfg of None \<Rightarrow> [] | Some c \<Rightarrow> [c])). isValidPort (localPort c))"
    by auto
  with Cons.IH [OF rest] show ?case
    by blast
qed

text \<open>
  Claim C6 on the code. Two services are selected; the first takes the default local port
  (an empty answer, so \<open>3000\<close>), and \<open>03000\<close> is typed for the second. The code accepts
  it: \<open>isValidPort\<close> reads it as the number 3000 and the reserved set, a set of strings,
  does not hold the string \<open>03000\<close>. Both configurations are finished, on the same port
  number.
\<close>

theorem local_port_collision:
  "snd (configureAll exampleShell exampleCatalog None [''api'', ''web''] [] []
          [[], [], [], [], [], ''03000'', [], []]) =
     Returned
       ([\<lparr>selectedService = ''api'', environment = ''dev'', envLabel = ''dev~'',
           serviceId = ''7d9-x1'', serviceName = ''dev-api'', serviceNamespace = Some ''team1'',
           localPort = ''3000'', servicePort = ''80'', showLogs = True\<rparr>,
         \<lparr>selectedService = ''web'', environment = ''dev'', envLabel = ''dev~'',
           serviceId = ''5c4-k2'', serviceName = ''dev-web'', serviceNamespace = Some ''team1'',
           localPort = ''03000'', servicePort = ''80'', showLogs = True\<rparr>],
        [''3000'', ''03000''], []) \<and>
   portNumber ''3000'' = Some 3000 \<and> portNumber ''03000'' = Some 3000"
proof -
  have p0: "prompt [] = []" and p1: "prompt ''03000'' = ''03000''"
    by code_simp+
  have e: "selectEnvironment [''dev''] [] = EnvSelected ''dev''"
    by code_simp
  have v: "isValidPort ''3000''" "isValidPort ''03000''" "isValidPort ''80''"
    by code_simp+
  have y: "trim ''y'' = ''y''"
    by code_simp
  have n1: "nextAvailablePort 3000 [''3000''] = ''3001''"
    by (simp add: nextAvailablePort.simps String_of_3000 String_of_3001)
  have api: "snd (configureService exampleShell exampleCatalog None ''api'' []
                 [[], [], [], [], [], ''03000'', [], []]) =
     Returned
       (Some \<lparr>selectedService = ''api'', environment = ''dev'', envLabel = ''dev~'',
           serviceId = ''7d9-x1'', serviceName = ''dev-api'', serviceNamespace = Some ''team1'',
           localPort = ''3000'', servicePort = ''80'', showLogs = True\<rparr>,
        [''3000''], [[], ''03000'', [], []])"
    by (simp add: configureService_def finishConfig_def getServicePort_def execPromise_def
        exampleShell_def exampleCatalog_def apiDetails_def Let_def set_add_def
        nextAvailablePort_3000_empty p0 e v y)
  have web: "snd (configureService exampleShell exampleCatalog None ''web'' [''3000'']
                 [[], ''03000'', [], []]) =
     Returned
       (Some \<lparr>selectedService = ''web'', environment = ''dev'', envLabel = ''dev~'',
           serviceId = ''5c4-k2'', serviceName = ''dev-web'', serviceNamespace = Some ''team1'',
           localPort = ''03000'', servicePort = ''80'', showLogs = True\<rparr>,
        [''3000'', ''03000''], [])"
    by (simp add: configureService_def finishConfig_def getServicePort_def execPromise_def
        exampleShell_def exampleCatalog_def webDetails_def Let_def set_add_def
        n1 p0 p1 e v y)
  have step: "snd (configureAll sh m ns (svc # svcs) cfgs reserved answers) =
      (case snd (configureService sh m ns svc reserved answers) of
         Waiting \<Rightarrow> Waiting
       | Raised err \<Rightarrow> Raised err
       | Returned (cfg, reserved', answers') \<Rightarrow>
           snd (configureAll sh m ns svcs
                  (cfgs @ (case cfg of None \<Rightarrow> [] | Some c \<Rightarrow> [c])) reserved' answers'))"
    for sh m ns svc svcs cfgs reserved answers
    by (simp split: prod.splits outcome.splits)
  have n: "portNumber ''3000'' = Some 3000" "portNumber ''03000'' = Some 3000"
    by code_simp+
  from api web n show ?thesis
    by (simp add: step del: configureAll.simps(2))
qed

end
